theory Spec2Isabelle
  imports Main "HOL-Library.Monad_Syntax"
begin

section \<open>Data model of the tab view\<close>

text \<open>
  The widget tree of a \<open>TabView\<close> is embedded by value. A \<open>TabView\<close> has either no
  children (before \<open>InitTabView\<close>) or exactly two \<open>Frame\<close>s: the tab strip (child 0) and
  the stacked content frame (child 1). A Go pointer into the tree (\<open>fr\<close>, \<open>tb\<close>, \<open>tab\<close>,
  \<open>widg\<close>) is a position in this tree; a write through the pointer is an update of the tree
  at that position. A Go panic (an index out of range, a failed type assertion) is the
  result \<open>None\<close>.

  The rendering protocol (\<open>UpdateStart\<close>, \<open>UpdateEnd\<close>, styling, layout) does not touch
  the fields modelled here and is left out; \<open>SetFullReRender\<close> is kept as a flag.
\<close>

datatype KiType = KiT_Frame | KiT_Action | KiT_TabButton | KiT_TabView | KiT_Other string

text \<open>The \<open>Data\<close> field of a button is a Go interface value: nil, an int, or something else.\<close>

datatype DataVal = NoData | IntData int | OtherData string

text \<open>A content widget (any \<open>Node2D\<close>): its name, its type and the invisible flag.\<close>

record Node2D =
  Nm :: string
  Typ :: KiType
  Invisible :: bool

text \<open>
  A child of the tab strip: a \<open>TabButton\<close> or the \<open>Action\<close> of the new-tab button. Both
  embed \<open>ButtonBase\<close>, whose fields the code uses are listed here.
\<close>

record Button =
  BNm :: string
  BTyp :: KiType
  Data :: DataVal
  Text :: string
  Tooltip :: string
  Icon :: string
  Selected :: bool

record 'k Frame =
  Kids :: "'k list"
  StackTop :: int

datatype TabViewSignals = TabSelected | TabAdded | TabDeleted

text \<open>
  \<open>Emitted\<close> records the signals sent on \<open>TabViewSig\<close>, oldest first, and \<open>Logged\<close> the
  arguments of each \<open>log.Printf\<close> of \<open>TabAtIndex\<close> (index, number of tabs).
\<close>

record TabView =
  TvKids :: "(Button Frame \<times> Node2D Frame) option"
  MaxChars :: int
  NewTabButton :: bool
  NewTabType :: "KiType option"
  FullReRender :: bool
  Emitted :: "(TabViewSignals \<times> int) list"
  Logged :: "(int \<times> int) list"

section \<open>The tree-node interface\<close>

text \<open>
  Modelled from the spec: package \<open>ki\<close> (the generic tree node with ordered children) is
  not part of the sources. The spec describes it as order-preserving children with
  insert-at-index, delete-at-index, type-based child creation and name lookup, and gives
  insertion the precondition \<open>0 \<le> index \<le> count\<close>, anything else being a violation of the
  caller's contract with undefined outcome. The model returns \<open>None\<close> outside the valid range.
\<close>

definition KnownChild :: "'k list \<Rightarrow> int \<Rightarrow> 'k option" where
  "KnownChild ks idx =
     (if 0 \<le> idx \<and> idx < int (length ks) then Some (ks ! nat idx) else None)"

definition insertAt :: "nat \<Rightarrow> 'k \<Rightarrow> 'k list \<Rightarrow> 'k list" where
  "insertAt i k ks = take i ks @ k # drop i ks"

definition removeAt :: "nat \<Rightarrow> 'k list \<Rightarrow> 'k list" where
  "removeAt i ks = take i ks @ drop (Suc i) ks"

definition InsertChild :: "'k \<Rightarrow> int \<Rightarrow> 'k list \<Rightarrow> 'k list option" where
  "InsertChild k idx ks =
     (if 0 \<le> idx \<and> idx \<le> int (length ks) then Some (insertAt (nat idx) k ks) else None)"

definition DeleteChildAtIndex :: "int \<Rightarrow> 'k list \<Rightarrow> 'k list option" where
  "DeleteChildAtIndex idx ks =
     (if 0 \<le> idx \<and> idx < int (length ks) then Some (removeAt (nat idx) ks) else None)"

text \<open>
  Modelled from the spec: a node made by type-based child creation. Go allocates it with
  every field at its zero value and then sets the name: no data, no text, not selected,
  visible; a new \<open>Frame\<close> has no children and \<open>StackTop = 0\<close>.
\<close>

definition NewButton :: "KiType \<Rightarrow> string \<Rightarrow> Button" where
  "NewButton typ nm =
     \<lparr>BNm = nm, BTyp = typ, Data = NoData, Text = [], Tooltip = [], Icon = [],
      Selected = False\<rparr>"

definition NewNode2D :: "KiType \<Rightarrow> string \<Rightarrow> Node2D" where
  "NewNode2D typ nm = \<lparr>Nm = nm, Typ = typ, Invisible = False\<rparr>"

definition NewFrame :: "'k Frame" where
  "NewFrame = \<lparr>Kids = [], StackTop = 0\<rparr>"

text \<open>
  Modelled from the spec: \<open>IndexByName(label, 0)\<close>, the linear lookup by name from the
  first child, returning the first match.
\<close>

fun IndexByNameFrom :: "string \<Rightarrow> int \<Rightarrow> Button list \<Rightarrow> int \<times> bool" where
  "IndexByNameFrom nm i [] = (-1, False)"
| "IndexByNameFrom nm i (k # ks) =
     (if BNm k = nm then (i, True) else IndexByNameFrom nm (i + 1) ks)"

definition IndexByName :: "string \<Rightarrow> Button list \<Rightarrow> int \<times> bool" where
  "IndexByName nm ks = IndexByNameFrom nm 0 ks"

text \<open>
  \<open>k.Embed(KiT_TabButton).(*TabButton)\<close>: \<open>Embed\<close> gives nil for a node that is not a
  \<open>TabButton\<close>, and the type assertion on nil panics.
\<close>

definition AsTabButton :: "Button \<Rightarrow> Button option" where
  "AsTabButton k = (if BTyp k = KiT_TabButton then Some k else None)"

text \<open>\<open>d.(int)\<close>: the single-value type assertion panics unless the value is an int.\<close>

definition AsInt :: "DataVal \<Rightarrow> int option" where
  "AsInt d = (case d of IntData i \<Rightarrow> Some i | _ \<Rightarrow> None)"

section \<open>Children of the tab view\<close>

text \<open>Writes through the pointers returned by \<open>Tabs()\<close> and \<open>Frame()\<close>.\<close>

definition updTabs :: "(Button Frame \<Rightarrow> Button Frame) \<Rightarrow> TabView \<Rightarrow> TabView" where
  "updTabs f tv = tv\<lparr>TvKids := map_option (\<lambda>(tb, fr). (f tb, fr)) (TvKids tv)\<rparr>"

definition updFrame :: "(Node2D Frame \<Rightarrow> Node2D Frame) \<Rightarrow> TabView \<Rightarrow> TabView" where
  "updFrame f tv = tv\<lparr>TvKids := map_option (\<lambda>(tb, fr). (tb, f fr)) (TvKids tv)\<rparr>"

definition SetFullReRender :: "TabView \<Rightarrow> TabView" where
  "SetFullReRender tv = tv\<lparr>FullReRender := True\<rparr>"

text \<open>
  The body of \<open>ConfigNewTabButton\<close> once the two children exist. In the source
  \<open>ConfigNewTabButton\<close> reaches the children through \<open>NTabs()\<close> and \<open>Tabs()\<close>, which call
  \<open>InitTabView\<close>, which calls \<open>ConfigNewTabButton\<close> after it has made the children; that
  inner call finds the children present, so its \<open>InitTabView\<close> returns at once.
\<close>

definition ConfigNewTabButtonKids :: "TabView \<Rightarrow> (bool \<times> TabView) option" where
  "ConfigNewTabButtonKids tv = do {
     (tb, fr) \<leftarrow> TvKids tv;
     let sz = int (length (Kids fr));
     let ntb = int (length (Kids tb));
     if NewTabButton tv then
       if ntb = sz + 1 then Some (False, tv)
       else do {
         let tv1 = (if NewTabType tv = None then tv\<lparr>NewTabType := Some KiT_Frame\<rparr> else tv);
         let tab = (NewButton KiT_Action ''new-tab'')\<lparr>Data := IntData (-1), Icon := ''plus''\<rparr>;
         ks \<leftarrow> InsertChild tab ntb (Kids tb);
         Some (True, updTabs (\<lambda>t. t\<lparr>Kids := ks\<rparr>) tv1)
       }
     else
       if ntb = sz then Some (False, tv)
       else do {
         ks \<leftarrow> DeleteChildAtIndex (ntb - 1) (Kids tb);
         Some (True, updTabs (\<lambda>t. t\<lparr>Kids := ks\<rparr>) tv)
       }
   }"

definition InitTabView :: "TabView \<Rightarrow> TabView option" where
  "InitTabView tv =
     (case TvKids tv of
        Some p \<Rightarrow> Some tv
      | None \<Rightarrow> do {
          (r, tv1) \<leftarrow> ConfigNewTabButtonKids (tv\<lparr>TvKids := Some (NewFrame, NewFrame)\<rparr>);
          Some tv1
        })"

definition Tabs :: "TabView \<Rightarrow> (Button Frame \<times> TabView) option" where
  "Tabs tv = do { tv1 \<leftarrow> InitTabView tv; (tb, fr) \<leftarrow> TvKids tv1; Some (tb, tv1) }"

definition Frame :: "TabView \<Rightarrow> (Node2D Frame \<times> TabView) option" where
  "Frame tv = do { tv1 \<leftarrow> InitTabView tv; (tb, fr) \<leftarrow> TvKids tv1; Some (fr, tv1) }"

definition ConfigNewTabButton :: "TabView \<Rightarrow> (bool \<times> TabView) option" where
  "ConfigNewTabButton tv = do { tv1 \<leftarrow> InitTabView tv; ConfigNewTabButtonKids tv1 }"

definition NTabs :: "TabView \<Rightarrow> (int \<times> TabView) option" where
  "NTabs tv = do { (fr, tv1) \<leftarrow> Frame tv; Some (int (length (Kids fr)), tv1) }"

section \<open>Operations of the tab view\<close>

definition CurTab :: "TabView \<Rightarrow> ((Node2D option \<times> int \<times> bool) \<times> TabView) option" where
  "CurTab tv = do {
     (n, tv1) \<leftarrow> NTabs tv;
     if n = 0 then Some ((None, -1, False), tv1)
     else do {
       (fr, tv2) \<leftarrow> Frame tv1;
       if StackTop fr < 0 then Some ((None, -1, False), tv2)
       else do {
         widg \<leftarrow> KnownChild (Kids fr) (StackTop fr);
         Some ((Some widg, StackTop fr, True), tv2)
       }
     }
   }"

text \<open>A write to one field of the child at position \<open>i\<close> (through a pointer to it).\<close>

definition atKid :: "nat \<Rightarrow> ('k \<Rightarrow> 'k) \<Rightarrow> 'k Frame \<Rightarrow> 'k Frame" where
  "atKid i f fr = fr\<lparr>Kids := (Kids fr)[i := f (Kids fr ! i)]\<rparr>"

text \<open>
  \<open>InsertTabOnlyAt(widg, label, idx)\<close>. The argument \<open>widg\<close> points to the widget that
  \<open>InsertTab\<close> or \<open>InsertNewTab\<close> has just put at position \<open>idx\<close> of the content frame, so
  \<open>widg.SetInvisibleTree()\<close> is a write to that child. The closure connected to the new
  button is \<open>TabButtonClicked\<close> below.
\<close>

definition InsertTabOnlyAt :: "string \<Rightarrow> int \<Rightarrow> TabView \<Rightarrow> TabView option" where
  "InsertTabOnlyAt label idx tv = do {
     (tb, tv1) \<leftarrow> Tabs tv;
     let tab = (NewButton KiT_TabButton label)
                 \<lparr>Data := IntData idx, Text := label, Tooltip := label\<rparr>;
     ks \<leftarrow> InsertChild tab idx (Kids tb);
     let tv2 = updTabs (\<lambda>t. t\<lparr>Kids := ks\<rparr>) tv1;
     (fr, tv3) \<leftarrow> Frame tv2;
     if length (Kids fr) = 1 then
       Some (updTabs (atKid (nat idx) (\<lambda>b. b\<lparr>Selected := True\<rparr>))
              (updFrame (\<lambda>f. f\<lparr>StackTop := 0\<rparr>) tv3))
     else
       Some (updFrame (atKid (nat idx) (\<lambda>w. w\<lparr>Invisible := True\<rparr>)) tv3)
   }"

definition InsertTab :: "Node2D \<Rightarrow> string \<Rightarrow> int \<Rightarrow> TabView \<Rightarrow> TabView option" where
  "InsertTab widg label idx tv = do {
     (fr, tv1) \<leftarrow> Frame tv;
     let tv2 = SetFullReRender tv1;
     ks \<leftarrow> InsertChild widg idx (Kids fr);
     InsertTabOnlyAt label idx (updFrame (\<lambda>f. f\<lparr>Kids := ks\<rparr>) tv2)
   }"

definition AddTab :: "Node2D \<Rightarrow> string \<Rightarrow> TabView \<Rightarrow> (int \<times> TabView) option" where
  "AddTab widg label tv = do {
     (fr, tv1) \<leftarrow> Frame tv;
     let idx = int (length (Kids fr));
     tv2 \<leftarrow> InsertTab widg label idx tv1;
     Some (idx, tv2)
   }"

text \<open>
  \<open>InsertNewTab\<close> returns the pointer to the widget it made; the model returns the widget
  as it stands in the tree when the function returns.
\<close>

definition InsertNewTab :: "KiType \<Rightarrow> string \<Rightarrow> int \<Rightarrow> TabView \<Rightarrow> (Node2D \<times> TabView) option" where
  "InsertNewTab typ label idx tv = do {
     (fr, tv1) \<leftarrow> Frame tv;
     let tv2 = SetFullReRender tv1;
     ks \<leftarrow> InsertChild (NewNode2D typ label) idx (Kids fr);
     tv3 \<leftarrow> InsertTabOnlyAt label idx (updFrame (\<lambda>f. f\<lparr>Kids := ks\<rparr>) tv2);
     (fr3, tv4) \<leftarrow> Frame tv3;
     widg \<leftarrow> KnownChild (Kids fr3) idx;
     Some (widg, tv4)
   }"

definition AddNewTab :: "KiType \<Rightarrow> string \<Rightarrow> TabView \<Rightarrow> ((Node2D \<times> int) \<times> TabView) option" where
  "AddNewTab typ label tv = do {
     (fr, tv1) \<leftarrow> Frame tv;
     let idx = int (length (Kids fr));
     (widg, tv2) \<leftarrow> InsertNewTab typ label idx tv1;
     Some ((widg, idx), tv2)
   }"

definition Emit :: "TabViewSignals \<Rightarrow> int \<Rightarrow> TabView \<Rightarrow> TabView" where
  "Emit sig d tv = tv\<lparr>Emitted := Emitted tv @ [(sig, d)]\<rparr>"

definition AddNewTabAction :: "KiType \<Rightarrow> string \<Rightarrow> TabView \<Rightarrow> ((Node2D \<times> int) \<times> TabView) option" where
  "AddNewTabAction typ label tv = do {
     ((widg, idx), tv1) \<leftarrow> AddNewTab typ label tv;
     Some ((widg, idx), Emit TabAdded idx tv1)
   }"

definition TabAtIndex ::
  "int \<Rightarrow> TabView \<Rightarrow> ((Node2D option \<times> Button option \<times> bool) \<times> TabView) option" where
  "TabAtIndex idx tv = do {
     (fr, tv1) \<leftarrow> Frame tv;
     (tb, tv2) \<leftarrow> Tabs tv1;
     let sz = int (length (Kids fr));
     if idx < 0 \<or> idx \<ge> sz then
       Some ((None, None, False), tv2\<lparr>Logged := Logged tv2 @ [(idx, sz)]\<rparr>)
     else do {
       k \<leftarrow> KnownChild (Kids tb) idx;
       tab \<leftarrow> AsTabButton k;
       widg \<leftarrow> KnownChild (Kids fr) idx;
       Some ((Some widg, Some tab, True), tv2)
     }
   }"

text \<open>The loop of \<open>UnselectOtherTabs\<close>: \<open>for i := 0; i < sz; i++\<close>.\<close>

function UnselectLoop :: "int \<Rightarrow> nat \<Rightarrow> nat \<Rightarrow> Button list \<Rightarrow> Button list option" where
  "UnselectLoop idx sz i ks =
     (if i < sz then
        (if int i = idx then UnselectLoop idx sz (Suc i) ks
         else do {
           k \<leftarrow> KnownChild ks (int i);
           tb \<leftarrow> AsTabButton k;
           UnselectLoop idx sz (Suc i)
             (if Selected tb then ks[i := tb\<lparr>Selected := False\<rparr>] else ks)
         })
      else Some ks)"
  by pat_completeness auto
termination
  by (relation "measure (\<lambda>(idx, sz, i, ks). sz - i)") auto

declare UnselectLoop.simps [simp del]

definition UnselectOtherTabs :: "int \<Rightarrow> TabView \<Rightarrow> TabView option" where
  "UnselectOtherTabs idx tv = do {
     (sz, tv1) \<leftarrow> NTabs tv;
     (tbs, tv2) \<leftarrow> Tabs tv1;
     ks \<leftarrow> UnselectLoop idx (nat sz) 0 (Kids tbs);
     Some (updTabs (\<lambda>t. t\<lparr>Kids := ks\<rparr>) tv2)
   }"

text \<open>The loop of \<open>RenumberTabs\<close>.\<close>

function RenumberLoop :: "nat \<Rightarrow> nat \<Rightarrow> Button list \<Rightarrow> Button list option" where
  "RenumberLoop sz i ks =
     (if i < sz then do {
        k \<leftarrow> KnownChild ks (int i);
        tb \<leftarrow> AsTabButton k;
        RenumberLoop sz (Suc i) (ks[i := tb\<lparr>Data := IntData (int i)\<rparr>])
      }
      else Some ks)"
  by pat_completeness auto
termination
  by (relation "measure (\<lambda>(sz, i, ks). sz - i)") auto

declare RenumberLoop.simps [simp del]

definition RenumberTabs :: "TabView \<Rightarrow> TabView option" where
  "RenumberTabs tv = do {
     (sz, tv1) \<leftarrow> NTabs tv;
     (tbs, tv2) \<leftarrow> Tabs tv1;
     ks \<leftarrow> RenumberLoop (nat sz) 0 (Kids tbs);
     Some (updTabs (\<lambda>t. t\<lparr>Kids := ks\<rparr>) tv2)
   }"

text \<open>
  \<open>SelectTabIndex\<close>: \<open>tab\<close> points to child \<open>idx\<close> of the tab strip and \<open>fr\<close> to the content
  frame; the widget returned is the one \<open>TabAtIndex\<close> found.
\<close>

definition SelectTabIndex :: "int \<Rightarrow> TabView \<Rightarrow> ((Node2D option \<times> bool) \<times> TabView) option" where
  "SelectTabIndex idx tv = do {
     ((widg, tab, ok), tv1) \<leftarrow> TabAtIndex idx tv;
     if \<not> ok then Some ((None, False), tv1)
     else do {
       (fr, tv2) \<leftarrow> Frame tv1;
       if StackTop fr = idx then Some ((widg, True), tv2)
       else do {
         tv3 \<leftarrow> UnselectOtherTabs idx tv2;
         let tv4 = updTabs (atKid (nat idx) (\<lambda>b. b\<lparr>Selected := True\<rparr>)) tv3;
         let tv5 = updFrame (\<lambda>f. f\<lparr>StackTop := idx\<rparr>) tv4;
         Some ((widg, True), tv5)
       }
     }
   }"

definition SelectTabIndexAction :: "int \<Rightarrow> TabView \<Rightarrow> TabView option" where
  "SelectTabIndexAction idx tv = do {
     ((widg, ok), tv1) \<leftarrow> SelectTabIndex idx tv;
     if ok then Some (Emit TabSelected idx tv1) else Some tv1
   }"

definition TabByName ::
  "string \<Rightarrow> TabView \<Rightarrow> ((Node2D option \<times> int \<times> bool) \<times> TabView) option" where
  "TabByName label tv = do {
     (tb, tv1) \<leftarrow> Tabs tv;
     let (idx, ok) = IndexByName label (Kids tb);
     if \<not> ok then Some ((None, -1, False), tv1)
     else do {
       (fr, tv2) \<leftarrow> Frame tv1;
       widg \<leftarrow> KnownChild (Kids fr) idx;
       Some ((Some widg, idx, True), tv2)
     }
   }"

definition SelectTabByName ::
  "string \<Rightarrow> TabView \<Rightarrow> ((Node2D option \<times> int \<times> bool) \<times> TabView) option" where
  "SelectTabByName label tv = do {
     ((widg, idx, ok), tv1) \<leftarrow> TabByName label tv;
     if ok then do {
       (r, tv2) \<leftarrow> SelectTabIndex idx tv1;
       Some ((widg, idx, ok), tv2)
     }
     else Some ((widg, idx, ok), tv1)
   }"

definition DeleteTabIndex ::
  "int \<Rightarrow> bool \<Rightarrow> TabView \<Rightarrow> ((Node2D option \<times> bool) \<times> TabView) option" where
  "DeleteTabIndex idx destroy tv = do {
     ((widg, tab, ok), tv1) \<leftarrow> TabAtIndex idx tv;
     if \<not> ok then Some ((None, False), tv1)
     else do {
       (fr, tv2) \<leftarrow> Frame tv1;
       let sz = int (length (Kids fr));
       (tb, tv3) \<leftarrow> Tabs tv2;
       let tv4 = SetFullReRender tv3;
       let nxtidx =
         (if StackTop fr = idx then
            (if idx > 0 then idx - 1 else if idx < sz - 1 then idx else -1)
          else -1);
       fks \<leftarrow> DeleteChildAtIndex idx (Kids fr);
       let tv5 = updFrame (\<lambda>f. f\<lparr>Kids := fks\<rparr>) tv4;
       tks \<leftarrow> DeleteChildAtIndex idx (Kids tb);
       let tv6 = updTabs (\<lambda>t. t\<lparr>Kids := tks\<rparr>) tv5;
       tv7 \<leftarrow> RenumberTabs tv6;
       tv8 \<leftarrow> (if nxtidx \<ge> 0 then do { (r, t) \<leftarrow> SelectTabIndex nxtidx tv7; Some t }
               else Some tv7);
       if destroy then Some ((None, True), tv8) else Some ((widg, True), tv8)
     }
   }"

definition DeleteTabIndexAction :: "int \<Rightarrow> TabView \<Rightarrow> TabView option" where
  "DeleteTabIndexAction idx tv = do {
     ((widg, ok), tv1) \<leftarrow> DeleteTabIndex idx True tv;
     if ok then Some (Emit TabDeleted idx tv1) else Some tv1
   }"

section \<open>Handlers of the button signals\<close>

text \<open>
  The closure \<open>InsertTabOnlyAt\<close> connects to a tab button's action signal: it reads the
  button's index tag and calls \<open>SelectTabIndex\<close> on the tab view.
\<close>

definition TabButtonClicked :: "Button \<Rightarrow> TabView \<Rightarrow> TabView option" where
  "TabButtonClicked act tvv = do {
     tabIdx \<leftarrow> AsInt (Data act);
     (r, tv1) \<leftarrow> SelectTabIndex tabIdx tvv;
     Some tv1
   }"

text \<open>
  Modelled from the spec: \<open>ParentByType(KiT_TabView, true)\<close> of package \<open>ki\<close> walks up the
  tree to the nearest ancestor that is a tab view. The path from a button to the root is
  the list of its ancestors, nearest first.
\<close>

datatype Ancestor = TabViewNode TabView | OtherNode KiType

fun ParentByType_TabView :: "Ancestor list \<Rightarrow> TabView option" where
  "ParentByType_TabView [] = None"
| "ParentByType_TabView (TabViewNode tv # as) = Some tv"
| "ParentByType_TabView (OtherNode t # as) = ParentByType_TabView as"

fun SetNearestTabView :: "TabView \<Rightarrow> Ancestor list \<Rightarrow> Ancestor list" where
  "SetNearestTabView tv' [] = []"
| "SetNearestTabView tv' (TabViewNode tv # as) = TabViewNode tv' # as"
| "SetNearestTabView tv' (OtherNode t # as) = OtherNode t # SetNearestTabView tv' as"

text \<open>Whether a node of the tree is a tab view.\<close>

fun IsTabView :: "Ancestor \<Rightarrow> bool" where
  "IsTabView (TabViewNode tv) = True"
| "IsTabView (OtherNode t) = False"

text \<open>\<open>(tb *TabButton) TabView()\<close>: nil (\<open>None\<close>) when no ancestor is a tab view.\<close>

definition TabButton_TabView :: "Ancestor list \<Rightarrow> TabView option" where
  "TabButton_TabView ancs = ParentByType_TabView ancs"

text \<open>
  The closure \<open>ConfigParts\<close> connects to the close control of a tab button \<open>tbb\<close> whose
  ancestors are \<open>ancs\<close>. It returns the ancestors after the click.
\<close>

definition CloseClicked :: "Button \<Rightarrow> Ancestor list \<Rightarrow> Ancestor list option" where
  "CloseClicked tbb ancs = do {
     tabIdx \<leftarrow> AsInt (Data tbb);
     case TabButton_TabView ancs of
       None \<Rightarrow> Some ancs
     | Some tvv \<Rightarrow> do {
         tvv' \<leftarrow> DeleteTabIndexAction tabIdx tvv;
         Some (SetNearestTabView tvv' ancs)
       }
   }"

section \<open>Sequences of operations\<close>

text \<open>
  The public operations a caller can apply to a tab view, and the assignment to the public
  field \<open>NewTabButton\<close>. A sequence stops at the first panic.
\<close>

datatype Op =
    OpInsertTab Node2D string int
  | OpAddTab Node2D string
  | OpInsertNewTab KiType string int
  | OpAddNewTab KiType string
  | OpAddNewTabAction KiType string
  | OpSelectTabIndex int
  | OpSelectTabIndexAction int
  | OpSelectTabByName string
  | OpDeleteTabIndex int bool
  | OpDeleteTabIndexAction int
  | OpConfigNewTabButton
  | OpSetNewTabButton bool

fun Do :: "Op \<Rightarrow> TabView \<Rightarrow> TabView option" where
  "Do (OpInsertTab w l i) tv = InsertTab w l i tv"
| "Do (OpAddTab w l) tv = map_option snd (AddTab w l tv)"
| "Do (OpInsertNewTab t l i) tv = map_option snd (InsertNewTab t l i tv)"
| "Do (OpAddNewTab t l) tv = map_option snd (AddNewTab t l tv)"
| "Do (OpAddNewTabAction t l) tv = map_option snd (AddNewTabAction t l tv)"
| "Do (OpSelectTabIndex i) tv = map_option snd (SelectTabIndex i tv)"
| "Do (OpSelectTabIndexAction i) tv = SelectTabIndexAction i tv"
| "Do (OpSelectTabByName l) tv = map_option snd (SelectTabByName l tv)"
| "Do (OpDeleteTabIndex i d) tv = map_option snd (DeleteTabIndex i d tv)"
| "Do (OpDeleteTabIndexAction i) tv = DeleteTabIndexAction i tv"
| "Do OpConfigNewTabButton tv = map_option snd (ConfigNewTabButton tv)"
| "Do (OpSetNewTabButton b) tv = Some (tv\<lparr>NewTabButton := b\<rparr>)"

fun Run :: "Op list \<Rightarrow> TabView \<Rightarrow> TabView option" where
  "Run [] tv = Some tv"
| "Run (op # ops) tv = (case Do op tv of None \<Rightarrow> None | Some tv1 \<Rightarrow> Run ops tv1)"

text \<open>A tab view as Go allocates it: no children yet, every field at its zero value.\<close>

definition NewTabView :: TabView where
  "NewTabView =
     \<lparr>TvKids = None, MaxChars = 0, NewTabButton = False, NewTabType = None,
      FullReRender = False, Emitted = [], Logged = []\<rparr>"

text \<open>
  The tab view after \<open>AddTab(wa, "a")\<close> and \<open>AddTab(wb, "b")\<close> on a new tab view
  (\<open>TwoTabs_reached\<close> below): two tabs, the first selected and visible.
\<close>

definition TwoTabs :: TabView where
  "TwoTabs =
     \<lparr>TvKids = Some
        (\<lparr>Kids = [\<lparr>BNm = ''a'', BTyp = KiT_TabButton, Data = IntData 0, Text = ''a'',
                    Tooltip = ''a'', Icon = [], Selected = True\<rparr>,
                  \<lparr>BNm = ''b'', BTyp = KiT_TabButton, Data = IntData 1, Text = ''b'',
                    Tooltip = ''b'', Icon = [], Selected = False\<rparr>],
          StackTop = 0\<rparr>,
         \<lparr>Kids = [\<lparr>Nm = ''wa'', Typ = KiT_Frame, Invisible = False\<rparr>,
                  \<lparr>Nm = ''wb'', Typ = KiT_Frame, Invisible = True\<rparr>],
          StackTop = 0\<rparr>),
      MaxChars = 0, NewTabButton = False, NewTabType = None, FullReRender = True,
      Emitted = [], Logged = []\<rparr>"

section \<open>Observations\<close>

text \<open>
  What a caller sees of the tree through the accessors \<open>Tabs()\<close> and \<open>Frame()\<close> (which
  make the two frames on first use): the children of the tab strip, the children of the
  content frame, and the visible index \<open>StackTop\<close> of the content frame.
\<close>

definition TabKids :: "TabView \<Rightarrow> Button list" where
  "TabKids tv = (case Tabs tv of None \<Rightarrow> [] | Some (tb, tv1) \<Rightarrow> Kids tb)"

definition FrameKids :: "TabView \<Rightarrow> Node2D list" where
  "FrameKids tv = (case Frame tv of None \<Rightarrow> [] | Some (fr, tv1) \<Rightarrow> Kids fr)"

definition FrameStackTop :: "TabView \<Rightarrow> int" where
  "FrameStackTop tv = (case Frame tv of None \<Rightarrow> 0 | Some (fr, tv1) \<Rightarrow> StackTop fr)"

text \<open>The tab buttons of the strip, and the positions of the strip's selected children.\<close>

definition TabButtons :: "TabView \<Rightarrow> Button list" where
  "TabButtons tv = filter (\<lambda>k. BTyp k = KiT_TabButton) (TabKids tv)"

definition SelectedIdxs :: "Button list \<Rightarrow> nat list" where
  "SelectedIdxs ks = filter (\<lambda>i. Selected (ks ! i)) [0..<length ks]"

text \<open>
  The shape every operation keeps: the strip holds one tab button per content widget, in
  the same order, followed by at most one further child (the new-tab button), which is not
  a tab button.
\<close>

definition Aligned :: "Button list \<Rightarrow> Node2D list \<Rightarrow> bool" where
  "Aligned tks fks =
     ((length tks = length fks \<or> length tks = Suc (length fks)) \<and>
      list_all (\<lambda>k. BTyp k = KiT_TabButton) (take (length fks) tks) \<and>
      list_all (\<lambda>k. BTyp k \<noteq> KiT_TabButton) (drop (length fks) tks))"

definition WellFormed :: "TabView \<Rightarrow> bool" where
  "WellFormed tv = Aligned (TabKids tv) (FrameKids tv)"

text \<open>Closed forms of the two loops, for the proofs.\<close>

definition UnselectedFrom :: "int \<Rightarrow> nat \<Rightarrow> nat \<Rightarrow> Button list \<Rightarrow> Button list" where
  "UnselectedFrom idx sz i ks =
     map (\<lambda>j. if i \<le> j \<and> j < sz \<and> int j \<noteq> idx then (ks ! j)\<lparr>Selected := False\<rparr> else ks ! j)
       [0..<length ks]"

definition RenumberedFrom :: "nat \<Rightarrow> nat \<Rightarrow> Button list \<Rightarrow> Button list" where
  "RenumberedFrom sz i ks =
     map (\<lambda>j. if i \<le> j \<and> j < sz then (ks ! j)\<lparr>Data := IntData (int j)\<rparr> else ks ! j)
       [0..<length ks]"

definition SelectedKids :: "int \<Rightarrow> nat \<Rightarrow> Button list \<Rightarrow> Button list" where
  "SelectedKids idx sz ks =
     (UnselectedFrom idx sz 0 ks)
       [nat idx := (UnselectedFrom idx sz 0 ks ! nat idx)\<lparr>Selected := True\<rparr>]"

section \<open>The accessors\<close>

lemma InitTabView_inited [simp]: "TvKids tv \<noteq> None \<Longrightarrow> InitTabView tv = Some tv"
  by (auto simp: InitTabView_def)

lemma InitTabView_fresh:
  "TvKids tv = None \<Longrightarrow>
   InitTabView tv =
     Some (if NewTabButton tv
           then tv\<lparr>TvKids := Some (\<lparr>Kids = [(NewButton KiT_Action ''new-tab'')\<lparr>Data := IntData (-1), Icon := ''plus''\<rparr>], StackTop = 0\<rparr>, NewFrame),
                   NewTabType := (if NewTabType tv = None then Some KiT_Frame else NewTabType tv)\<rparr>
           else tv\<lparr>TvKids := Some (NewFrame, NewFrame)\<rparr>)"
  by (simp add: InitTabView_def ConfigNewTabButtonKids_def NewFrame_def InsertChild_def
      insertAt_def updTabs_def)

lemma InitTabView_total: "\<exists>tv0 tb fr. InitTabView tv = Some tv0 \<and> TvKids tv0 = Some (tb, fr)"
proof (cases "TvKids tv")
  case None
  then show ?thesis by (simp add: InitTabView_fresh)
next
  case (Some p)
  then show ?thesis by (cases p) simp
qed

lemma InitTabView_idem: "InitTabView tv = Some tv0 \<Longrightarrow> InitTabView tv0 = Some tv0"
  using InitTabView_total [of tv] by auto

lemma Tabs_inited [simp]: "TvKids tv \<noteq> None \<Longrightarrow> Tabs tv = Some (fst (the (TvKids tv)), tv)"
  by (auto simp: Tabs_def)

lemma Frame_inited [simp]: "TvKids tv \<noteq> None \<Longrightarrow> Frame tv = Some (snd (the (TvKids tv)), tv)"
  by (auto simp: Frame_def)

lemma NTabs_inited [simp]:
  "TvKids tv \<noteq> None \<Longrightarrow> NTabs tv = Some (int (length (Kids (snd (the (TvKids tv))))), tv)"
  by (simp add: NTabs_def)

lemma Frame_init: "InitTabView tv = Some tv0 \<Longrightarrow> Frame tv = Frame tv0"
  by (simp add: Frame_def InitTabView_idem)

lemma Tabs_init: "InitTabView tv = Some tv0 \<Longrightarrow> Tabs tv = Tabs tv0"
  by (simp add: Tabs_def InitTabView_idem)

section \<open>The loops\<close>

lemma Unselected_past: "\<not> i < sz \<Longrightarrow> UnselectedFrom idx sz i ks = ks"
  by (auto simp: UnselectedFrom_def intro!: nth_equalityI)

lemma Unselected_skip: "int i = idx \<Longrightarrow> UnselectedFrom idx sz (Suc i) ks = UnselectedFrom idx sz i ks"
  by (auto simp: UnselectedFrom_def)

lemma Unselected_step:
  "i < sz \<Longrightarrow> sz \<le> length ks \<Longrightarrow> int i \<noteq> idx \<Longrightarrow>
   UnselectedFrom idx sz (Suc i) (ks[i := (ks ! i)\<lparr>Selected := False\<rparr>]) = UnselectedFrom idx sz i ks"
  by (auto simp: UnselectedFrom_def nth_list_update intro!: nth_equalityI)

lemma unselect_same: "\<not> Selected k \<Longrightarrow> k\<lparr>Selected := False\<rparr> = k"
  by (cases k) simp

lemma tabs_update_typ:
  "list_all (\<lambda>k. BTyp k = KiT_TabButton) (take sz ks) \<Longrightarrow> BTyp b = BTyp (ks ! i) \<Longrightarrow> i < length ks \<Longrightarrow>
   list_all (\<lambda>k. BTyp k = KiT_TabButton) (take sz (ks[i := b]))"
  by (auto simp: list_all_length nth_list_update)

lemma UnselectLoop_closed:
  "sz \<le> length ks \<Longrightarrow> list_all (\<lambda>k. BTyp k = KiT_TabButton) (take sz ks) \<Longrightarrow>
   UnselectLoop idx sz i ks = Some (UnselectedFrom idx sz i ks)"
proof (induction n \<equiv> "sz - i" arbitrary: i ks)
  case 0
  then have "\<not> i < sz" by simp
  then show ?case by (simp add: UnselectLoop.simps [of idx sz i ks] Unselected_past)
next
  case (Suc n)
  then have lt: "i < sz" and n: "n = sz - Suc i" by simp_all
  show ?case
  proof (cases "int i = idx")
    case True
    have "UnselectLoop idx sz i ks = UnselectLoop idx sz (Suc i) ks"
      using lt True by (simp add: UnselectLoop.simps [of idx sz i ks])
    also have "\<dots> = Some (UnselectedFrom idx sz (Suc i) ks)"
      using Suc.hyps(1) [OF n Suc.prems] .
    finally show ?thesis using True by (simp add: Unselected_skip)
  next
    case False
    let ?b = "(ks ! i)\<lparr>Selected := False\<rparr>"
    let ?ks = "ks[i := ?b]"
    have il: "i < length ks" using lt Suc.prems(1) by simp
    have bty: "BTyp (ks ! i) = KiT_TabButton"
      using Suc.prems(2) lt il by (simp add: list_all_length)
    have same: "(if Selected (ks ! i) then ?ks else ks) = ?ks"
      by (simp add: unselect_same)
    have "UnselectLoop idx sz i ks = UnselectLoop idx sz (Suc i) ?ks"
      using lt False il bty same
      by (simp add: UnselectLoop.simps [of idx sz i ks] KnownChild_def AsTabButton_def)
    also have "\<dots> = Some (UnselectedFrom idx sz (Suc i) ?ks)"
    proof (rule Suc.hyps(1) [OF n])
      show "sz \<le> length ?ks" using Suc.prems(1) by simp
      show "list_all (\<lambda>k. BTyp k = KiT_TabButton) (take sz ?ks)"
        using Suc.prems(2) il by (intro tabs_update_typ) simp_all
    qed
    finally show ?thesis using lt Suc.prems(1) False by (simp add: Unselected_step)
  qed
qed

lemma Renumbered_past: "\<not> i < sz \<Longrightarrow> RenumberedFrom sz i ks = ks"
  by (auto simp: RenumberedFrom_def intro!: nth_equalityI)

lemma Renumbered_step:
  "i < sz \<Longrightarrow> sz \<le> length ks \<Longrightarrow>
   RenumberedFrom sz (Suc i) (ks[i := (ks ! i)\<lparr>Data := IntData (int i)\<rparr>]) = RenumberedFrom sz i ks"
  by (auto simp: RenumberedFrom_def nth_list_update intro!: nth_equalityI)

lemma RenumberLoop_closed:
  "sz \<le> length ks \<Longrightarrow> list_all (\<lambda>k. BTyp k = KiT_TabButton) (take sz ks) \<Longrightarrow>
   RenumberLoop sz i ks = Some (RenumberedFrom sz i ks)"
proof (induction n \<equiv> "sz - i" arbitrary: i ks)
  case 0
  then have "\<not> i < sz" by simp
  then show ?case by (simp add: RenumberLoop.simps [of sz i ks] Renumbered_past)
next
  case (Suc n)
  then have lt: "i < sz" and n: "n = sz - Suc i" by simp_all
  let ?ks = "ks[i := (ks ! i)\<lparr>Data := IntData (int i)\<rparr>]"
  have il: "i < length ks" using lt Suc.prems(1) by simp
  have bty: "BTyp (ks ! i) = KiT_TabButton"
    using Suc.prems(2) lt il by (simp add: list_all_length)
  have "RenumberLoop sz i ks = RenumberLoop sz (Suc i) ?ks"
    using lt il bty
    by (simp add: RenumberLoop.simps [of sz i ks] KnownChild_def AsTabButton_def)
  also have "\<dots> = Some (RenumberedFrom sz (Suc i) ?ks)"
  proof (rule Suc.hyps(1) [OF n])
    show "sz \<le> length ?ks" using Suc.prems(1) by simp
    show "list_all (\<lambda>k. BTyp k = KiT_TabButton) (take sz ?ks)"
      using Suc.prems(2) il by (intro tabs_update_typ) simp_all
  qed
  finally show ?case using lt Suc.prems(1) by (simp add: Renumbered_step)
qed

section \<open>The operations on a tab view that has its frames\<close>

lemma Aligned_len: "Aligned tks fks \<Longrightarrow> length fks \<le> length tks"
  by (auto simp: Aligned_def)

lemma Aligned_take: "Aligned tks fks \<Longrightarrow> list_all (\<lambda>k. BTyp k = KiT_TabButton) (take (length fks) tks)"
  by (simp add: Aligned_def)

lemma Aligned_typ: "Aligned tks fks \<Longrightarrow> i < length fks \<Longrightarrow> BTyp (tks ! i) = KiT_TabButton"
  by (auto simp: Aligned_def list_all_length)

lemma TabAtIndex_invalid:
  "TvKids tv = Some (tb, fr) \<Longrightarrow> idx < 0 \<or> int (length (Kids fr)) \<le> idx \<Longrightarrow>
   TabAtIndex idx tv =
     Some ((None, None, False), tv\<lparr>Logged := Logged tv @ [(idx, int (length (Kids fr)))]\<rparr>)"
  by (auto simp: TabAtIndex_def)

lemma TabAtIndex_valid:
  "TvKids tv = Some (tb, fr) \<Longrightarrow> Aligned (Kids tb) (Kids fr) \<Longrightarrow>
   0 \<le> idx \<Longrightarrow> idx < int (length (Kids fr)) \<Longrightarrow>
   TabAtIndex idx tv = Some ((Some (Kids fr ! nat idx), Some (Kids tb ! nat idx), True), tv)"
  using Aligned_len [of "Kids tb" "Kids fr"] Aligned_typ [of "Kids tb" "Kids fr" "nat idx"]
  by (simp add: TabAtIndex_def KnownChild_def AsTabButton_def)

lemma UnselectOtherTabs_inited:
  "TvKids tv = Some (tb, fr) \<Longrightarrow> Aligned (Kids tb) (Kids fr) \<Longrightarrow>
   UnselectOtherTabs idx tv =
     Some (tv\<lparr>TvKids := Some (tb\<lparr>Kids := UnselectedFrom idx (length (Kids fr)) 0 (Kids tb)\<rparr>, fr)\<rparr>)"
  by (simp add: UnselectOtherTabs_def UnselectLoop_closed Aligned_len Aligned_take updTabs_def)

lemma RenumberTabs_inited:
  "TvKids tv = Some (tb, fr) \<Longrightarrow> Aligned (Kids tb) (Kids fr) \<Longrightarrow>
   RenumberTabs tv =
     Some (tv\<lparr>TvKids := Some (tb\<lparr>Kids := RenumberedFrom (length (Kids fr)) 0 (Kids tb)\<rparr>, fr)\<rparr>)"
  by (simp add: RenumberTabs_def RenumberLoop_closed Aligned_len Aligned_take updTabs_def)

lemma SelectTabIndex_invalid:
  "TvKids tv = Some (tb, fr) \<Longrightarrow> idx < 0 \<or> int (length (Kids fr)) \<le> idx \<Longrightarrow>
   SelectTabIndex idx tv =
     Some ((None, False), tv\<lparr>Logged := Logged tv @ [(idx, int (length (Kids fr)))]\<rparr>)"
  by (simp add: SelectTabIndex_def TabAtIndex_invalid)

lemma SelectTabIndex_same:
  "TvKids tv = Some (tb, fr) \<Longrightarrow> Aligned (Kids tb) (Kids fr) \<Longrightarrow>
   0 \<le> idx \<Longrightarrow> idx < int (length (Kids fr)) \<Longrightarrow> StackTop fr = idx \<Longrightarrow>
   SelectTabIndex idx tv = Some ((Some (Kids fr ! nat idx), True), tv)"
  by (simp add: SelectTabIndex_def TabAtIndex_valid)

lemma SelectTabIndex_other:
  "TvKids tv = Some (tb, fr) \<Longrightarrow> Aligned (Kids tb) (Kids fr) \<Longrightarrow>
   0 \<le> idx \<Longrightarrow> idx < int (length (Kids fr)) \<Longrightarrow> StackTop fr \<noteq> idx \<Longrightarrow>
   SelectTabIndex idx tv =
     Some ((Some (Kids fr ! nat idx), True),
           tv\<lparr>TvKids := Some (tb\<lparr>Kids := SelectedKids idx (length (Kids fr)) (Kids tb)\<rparr>,
                               fr\<lparr>StackTop := idx\<rparr>)\<rparr>)"
  by (simp add: SelectTabIndex_def TabAtIndex_valid UnselectOtherTabs_inited updTabs_def
      updFrame_def atKid_def SelectedKids_def)

lemma length_UnselectedFrom [simp]: "length (UnselectedFrom idx sz i ks) = length ks"
  by (simp add: UnselectedFrom_def)

lemma length_RenumberedFrom [simp]: "length (RenumberedFrom sz i ks) = length ks"
  by (simp add: RenumberedFrom_def)

lemma length_SelectedKids [simp]: "length (SelectedKids idx sz ks) = length ks"
  by (simp add: SelectedKids_def)

lemma nth_UnselectedFrom:
  "j < length ks \<Longrightarrow>
   UnselectedFrom idx sz i ks ! j =
     (if i \<le> j \<and> j < sz \<and> int j \<noteq> idx then (ks ! j)\<lparr>Selected := False\<rparr> else ks ! j)"
  by (simp add: UnselectedFrom_def)

lemma nth_RenumberedFrom:
  "j < length ks \<Longrightarrow>
   RenumberedFrom sz i ks ! j =
     (if i \<le> j \<and> j < sz then (ks ! j)\<lparr>Data := IntData (int j)\<rparr> else ks ! j)"
  by (simp add: RenumberedFrom_def)

lemma nth_SelectedKids:
  "0 \<le> idx \<Longrightarrow> j < length ks \<Longrightarrow>
   SelectedKids idx sz ks ! j =
     (if int j = idx then (ks ! j)\<lparr>Selected := True\<rparr>
      else if j < sz then (ks ! j)\<lparr>Selected := False\<rparr> else ks ! j)"
  by (auto simp: SelectedKids_def nth_list_update nth_UnselectedFrom)

section \<open>The alignment of strip and content frame\<close>

lemma Aligned_nth:
  "Aligned tks fks \<longleftrightarrow>
     (length tks = length fks \<or> length tks = Suc (length fks)) \<and>
     (\<forall>j < length tks. (BTyp (tks ! j) = KiT_TabButton) = (j < length fks))"
  unfolding Aligned_def list_all_length
  by (auto simp: less_Suc_eq)

lemma Aligned_same_types:
  "Aligned tks fks \<Longrightarrow> length tks' = length tks \<Longrightarrow> length fks' = length fks \<Longrightarrow>
   (\<And>j. j < length tks \<Longrightarrow> BTyp (tks' ! j) = BTyp (tks ! j)) \<Longrightarrow> Aligned tks' fks'"
  by (simp add: Aligned_nth)

lemma Aligned_Unselected: "Aligned tks fks \<Longrightarrow> Aligned (UnselectedFrom idx sz i tks) fks"
  by (erule Aligned_same_types) (simp_all add: nth_UnselectedFrom)

lemma Aligned_Renumbered: "Aligned tks fks \<Longrightarrow> Aligned (RenumberedFrom sz i tks) fks"
  by (erule Aligned_same_types) (simp_all add: nth_RenumberedFrom)

lemma Aligned_Selected: "0 \<le> idx \<Longrightarrow> Aligned tks fks \<Longrightarrow> Aligned (SelectedKids idx sz tks) fks"
  by (erule Aligned_same_types) (simp_all add: nth_SelectedKids)

lemma length_insertAt [simp]: "length (insertAt i k ks) = Suc (length ks)"
  by (simp add: insertAt_def)

lemma length_removeAt [simp]: "i < length ks \<Longrightarrow> length (removeAt i ks) = length ks - 1"
  by (simp add: removeAt_def)

lemma nth_insertAt:
  "i \<le> length ks \<Longrightarrow> j \<le> length ks \<Longrightarrow>
   insertAt i k ks ! j = (if j < i then ks ! j else if j = i then k else ks ! (j - 1))"
  by (auto simp: insertAt_def nth_append nth_Cons' min_def)

lemma nth_removeAt:
  "i < length ks \<Longrightarrow> j < length ks - 1 \<Longrightarrow>
   removeAt i ks ! j = (if j < i then ks ! j else ks ! Suc j)"
  by (auto simp: removeAt_def nth_append min_def)

lemma Aligned_insert:
  "Aligned tks fks \<Longrightarrow> i \<le> length fks \<Longrightarrow> BTyp b = KiT_TabButton \<Longrightarrow>
   Aligned (insertAt i b tks) (insertAt i w fks)"
  unfolding Aligned_nth
  by (auto simp: nth_insertAt less_Suc_eq)

lemma Aligned_remove:
  assumes A: "Aligned tks fks" and i: "i < length fks"
  shows "Aligned (removeAt i tks) (removeAt i fks)"
proof -
  from A have len: "length tks = length fks \<or> length tks = Suc (length fks)"
    and ty: "\<And>j. j < length tks \<Longrightarrow> (BTyp (tks ! j) = KiT_TabButton) = (j < length fks)"
    by (simp_all add: Aligned_nth)
  from len i have it: "i < length tks" by auto
  have "(BTyp (removeAt i tks ! j) = KiT_TabButton) = (j < length (removeAt i fks))"
    if j: "j < length (removeAt i tks)" for j
  proof (cases "j < i")
    case True
    with j it i ty [of j] show ?thesis by (simp add: nth_removeAt)
  next
    case False
    with j it i ty [of "Suc j"] show ?thesis by (auto simp: nth_removeAt)
  qed
  with len i it show ?thesis by (auto simp: Aligned_nth)
qed

lemma Aligned_append_other:
  "Aligned tks fks \<Longrightarrow> length tks = length fks \<Longrightarrow> BTyp b \<noteq> KiT_TabButton \<Longrightarrow>
   Aligned (insertAt (length tks) b tks) fks"
  by (auto simp: Aligned_nth nth_insertAt less_Suc_eq)

lemma Aligned_remove_last:
  "Aligned tks fks \<Longrightarrow> length tks = Suc (length fks) \<Longrightarrow>
   Aligned (removeAt (length tks - 1) tks) fks"
  by (auto simp: Aligned_nth nth_removeAt)

lemma Aligned_Nil: "Aligned [] []"
  by (simp add: Aligned_def)

section \<open>Deleting and inserting a tab\<close>

lemma DeleteTabIndex_invalid:
  "TvKids tv = Some (tb, fr) \<Longrightarrow> idx < 0 \<or> int (length (Kids fr)) \<le> idx \<Longrightarrow>
   DeleteTabIndex idx destroy tv =
     Some ((None, False), tv\<lparr>Logged := Logged tv @ [(idx, int (length (Kids fr)))]\<rparr>)"
  by (simp add: DeleteTabIndex_def TabAtIndex_invalid)

lemma DeleteTabIndex_valid:
  assumes K: "TvKids tv = Some (tb, fr)" and A: "Aligned (Kids tb) (Kids fr)"
    and i0: "0 \<le> idx" and i1: "idx < int (length (Kids fr))"
  shows "DeleteTabIndex idx destroy tv =
     Some ((if destroy then None else Some (Kids fr ! nat idx), True),
       tv\<lparr>FullReRender := True, TvKids := Some
           (tb\<lparr>Kids :=
                (if StackTop fr = idx \<and> 0 < idx
                 then SelectedKids (idx - 1) (length (Kids fr) - 1)
                        (RenumberedFrom (length (Kids fr) - 1) 0 (removeAt (nat idx) (Kids tb)))
                 else RenumberedFrom (length (Kids fr) - 1) 0 (removeAt (nat idx) (Kids tb)))\<rparr>,
            fr\<lparr>Kids := removeAt (nat idx) (Kids fr),
               StackTop := (if StackTop fr = idx \<and> 0 < idx then idx - 1 else StackTop fr)\<rparr>)\<rparr>)"
proof -
  let ?i = "nat idx"
  let ?n = "length (Kids fr)"
  let ?tks = "removeAt ?i (Kids tb)"
  let ?fks = "removeAt ?i (Kids fr)"
  let ?tv6 = "tv\<lparr>FullReRender := True, TvKids := Some (tb\<lparr>Kids := ?tks\<rparr>, fr\<lparr>Kids := ?fks\<rparr>)\<rparr>"
  let ?rks = "RenumberedFrom (?n - 1) 0 ?tks"
  let ?tv7 = "tv\<lparr>FullReRender := True, TvKids := Some (tb\<lparr>Kids := ?rks\<rparr>, fr\<lparr>Kids := ?fks\<rparr>)\<rparr>"
  have i: "?i < ?n" using i0 i1 by simp
  have it: "?i < length (Kids tb)" using i Aligned_len [OF A] by simp
  have A6: "Aligned ?tks ?fks" using A i by (rule Aligned_remove)
  have A7: "Aligned ?rks ?fks" using A6 by (rule Aligned_Renumbered)
  have n6: "length ?fks = ?n - 1" using i by simp
  have R: "RenumberTabs ?tv6 = Some ?tv7"
    using RenumberTabs_inited [of ?tv6 "tb\<lparr>Kids := ?tks\<rparr>" "fr\<lparr>Kids := ?fks\<rparr>"] A6 n6
    by simp
  have S1: "SelectTabIndex (idx - 1) ?tv7 =
      Some ((Some (?fks ! nat (idx - 1)), True),
        tv\<lparr>FullReRender := True,
           TvKids := Some (tb\<lparr>Kids := SelectedKids (idx - 1) (?n - 1) ?rks\<rparr>,
                            fr\<lparr>Kids := ?fks, StackTop := idx - 1\<rparr>)\<rparr>)"
    if "StackTop fr = idx" "0 < idx"
    using SelectTabIndex_other [of ?tv7 "tb\<lparr>Kids := ?rks\<rparr>" "fr\<lparr>Kids := ?fks\<rparr>" "idx - 1"]
      A7 n6 that i1 by simp
  have S0: "SelectTabIndex idx ?tv7 = Some ((Some (?fks ! nat idx), True), ?tv7)"
    if "StackTop fr = idx" "\<not> 0 < idx" "1 < ?n"
  proof -
    from n6 that have "?fks \<noteq> []" by (cases ?fks) auto
    with A7 n6 that i0 show ?thesis
      using SelectTabIndex_same [of ?tv7 "tb\<lparr>Kids := ?rks\<rparr>" "fr\<lparr>Kids := ?fks\<rparr>" idx]
      by simp
  qed
  have it': "idx < int (length (Kids tb))" using it i0 by simp
  note T = TabAtIndex_valid [OF K A i0 i1]
  note defs = DeleteTabIndex_def DeleteChildAtIndex_def
        updTabs_def updFrame_def SetFullReRender_def Let_def
  consider (prev) "StackTop fr = idx" "0 < idx"
    | (slide) "StackTop fr = idx" "\<not> 0 < idx" "1 < ?n"
    | (last) "StackTop fr = idx" "\<not> 0 < idx" "\<not> 1 < ?n"
    | (other) "StackTop fr \<noteq> idx"
    by fastforce
  then show ?thesis
  proof cases
    case prev
    then show ?thesis using K i0 i1 it' R T S1 by (simp add: defs)
  next
    case slide
    then show ?thesis using K i0 i1 it' R T S0 by (simp add: defs)
  next
    case last
    then show ?thesis using K i0 i1 it' R T by (simp add: defs)
  next
    case other
    then show ?thesis using K i0 i1 it' R T by (simp add: defs)
  qed
qed


lemma InsertTabOnlyAt_inited:
  assumes K: "TvKids tv = Some (tb, fr)"
    and i0: "0 \<le> idx" and i1: "idx \<le> int (length (Kids tb))"
  shows "InsertTabOnlyAt label idx tv =
     Some (if length (Kids fr) = 1
       then tv\<lparr>TvKids := Some
           (atKid (nat idx) (\<lambda>b. b\<lparr>Selected := True\<rparr>)
              (tb\<lparr>Kids := insertAt (nat idx)
                 ((NewButton KiT_TabButton label)
                    \<lparr>Data := IntData idx, Text := label, Tooltip := label\<rparr>) (Kids tb)\<rparr>),
            fr\<lparr>StackTop := 0\<rparr>)\<rparr>
       else tv\<lparr>TvKids := Some
           (tb\<lparr>Kids := insertAt (nat idx)
                 ((NewButton KiT_TabButton label)
                    \<lparr>Data := IntData idx, Text := label, Tooltip := label\<rparr>) (Kids tb)\<rparr>,
            atKid (nat idx) (\<lambda>w. w\<lparr>Invisible := True\<rparr>) fr)\<rparr>)"
  using K i0 i1
  by (simp add: InsertTabOnlyAt_def InsertChild_def updTabs_def updFrame_def)

lemma insertAt_update:
  "i \<le> length ks \<Longrightarrow> (insertAt i k ks)[i := k'] = insertAt i k' ks"
  by (simp add: insertAt_def list_update_append)

lemma nth_insertAt_same: "i \<le> length ks \<Longrightarrow> insertAt i k ks ! i = k"
  by (simp add: nth_insertAt)

lemma InsertTab_empty:
  assumes K: "TvKids tv = Some (tb, fr)" and E: "Kids fr = []"
  shows "InsertTab widg label 0 tv =
     Some (tv\<lparr>FullReRender := True, TvKids := Some
            (tb\<lparr>Kids := insertAt 0
                 ((NewButton KiT_TabButton label)
                    \<lparr>Data := IntData 0, Text := label, Tooltip := label, Selected := True\<rparr>)
                 (Kids tb)\<rparr>,
             fr\<lparr>Kids := [widg], StackTop := 0\<rparr>)\<rparr>)"
  using K E
  by (simp add: InsertTab_def InsertChild_def updFrame_def SetFullReRender_def
      InsertTabOnlyAt_inited atKid_def insertAt_update nth_insertAt_same)
    (simp add: insertAt_def)

lemma InsertTab_nonempty:
  assumes K: "TvKids tv = Some (tb, fr)" and A: "length (Kids fr) \<le> length (Kids tb)"
    and N: "Kids fr \<noteq> []" and i0: "0 \<le> idx" and i1: "idx \<le> int (length (Kids fr))"
  shows "InsertTab widg label idx tv =
     Some (tv\<lparr>FullReRender := True, TvKids := Some
            (tb\<lparr>Kids := insertAt (nat idx)
                 ((NewButton KiT_TabButton label)
                    \<lparr>Data := IntData idx, Text := label, Tooltip := label\<rparr>)
                 (Kids tb)\<rparr>,
             fr\<lparr>Kids := insertAt (nat idx) (widg\<lparr>Invisible := True\<rparr>) (Kids fr)\<rparr>)\<rparr>)"
  using K A N i0 i1
  by (simp add: InsertTab_def InsertChild_def updFrame_def SetFullReRender_def
      InsertTabOnlyAt_inited atKid_def insertAt_update nth_insertAt_same)

section \<open>Lookup by name, appending a tab, the new-tab button\<close>

lemma IndexByNameFrom_none:
  "nm \<notin> BNm ` set ks \<Longrightarrow> IndexByNameFrom nm i ks = (-1, False)"
  by (induction ks arbitrary: i) auto

lemma IndexByNameFrom_first:
  "nm \<notin> BNm ` set xs \<Longrightarrow> BNm k = nm \<Longrightarrow>
   IndexByNameFrom nm i (xs @ k # ys) = (i + int (length xs), True)"
  by (induction xs arbitrary: i) auto

lemma TabByName_none:
  "TvKids tv = Some (tb, fr) \<Longrightarrow> label \<notin> BNm ` set (Kids tb) \<Longrightarrow>
   TabByName label tv = Some ((None, -1, False), tv)"
  by (simp add: TabByName_def IndexByName_def IndexByNameFrom_none)

lemma TabByName_first:
  "TvKids tv = Some (tb, fr) \<Longrightarrow> Kids tb = xs @ k # ys \<Longrightarrow> label \<notin> BNm ` set xs \<Longrightarrow>
   BNm k = label \<Longrightarrow> length xs < length (Kids fr) \<Longrightarrow>
   TabByName label tv = Some ((Some (Kids fr ! length xs), int (length xs), True), tv)"
  by (simp add: TabByName_def IndexByName_def IndexByNameFrom_first KnownChild_def)

lemma AddTab_empty:
  "TvKids tv = Some (tb, fr) \<Longrightarrow> Kids fr = [] \<Longrightarrow>
   AddTab widg label tv =
     Some (0, tv\<lparr>FullReRender := True, TvKids := Some
            (tb\<lparr>Kids := insertAt 0
                 ((NewButton KiT_TabButton label)
                    \<lparr>Data := IntData 0, Text := label, Tooltip := label, Selected := True\<rparr>)
                 (Kids tb)\<rparr>,
             fr\<lparr>Kids := [widg], StackTop := 0\<rparr>)\<rparr>)"
  by (simp add: AddTab_def InsertTab_empty Let_def)

lemma AddTab_nonempty:
  "TvKids tv = Some (tb, fr) \<Longrightarrow> length (Kids fr) \<le> length (Kids tb) \<Longrightarrow> Kids fr \<noteq> [] \<Longrightarrow>
   AddTab widg label tv =
     Some (int (length (Kids fr)), tv\<lparr>FullReRender := True, TvKids := Some
            (tb\<lparr>Kids := insertAt (length (Kids fr))
                 ((NewButton KiT_TabButton label)
                    \<lparr>Data := IntData (int (length (Kids fr))), Text := label, Tooltip := label\<rparr>)
                 (Kids tb)\<rparr>,
             fr\<lparr>Kids := insertAt (length (Kids fr)) (widg\<lparr>Invisible := True\<rparr>) (Kids fr)\<rparr>)\<rparr>)"
  by (simp add: AddTab_def InsertTab_nonempty Let_def)

lemma ConfigNewTabButton_inited:
  "TvKids tv = Some (tb, fr) \<Longrightarrow> ConfigNewTabButton tv = ConfigNewTabButtonKids tv"
  by (simp add: ConfigNewTabButton_def)

lemma ConfigNewTabButtonKids_noop:
  "TvKids tv = Some (tb, fr) \<Longrightarrow>
   length (Kids tb) = length (Kids fr) + (if NewTabButton tv then 1 else 0) \<Longrightarrow>
   ConfigNewTabButtonKids tv = Some (False, tv)"
  by (simp add: ConfigNewTabButtonKids_def)

lemma ConfigNewTabButtonKids_add:
  "TvKids tv = Some (tb, fr) \<Longrightarrow> NewTabButton tv \<Longrightarrow> length (Kids tb) \<noteq> Suc (length (Kids fr)) \<Longrightarrow>
   ConfigNewTabButtonKids tv =
     Some (True, tv\<lparr>NewTabType := (if NewTabType tv = None then Some KiT_Frame else NewTabType tv),
                    TvKids := Some (tb\<lparr>Kids := insertAt (length (Kids tb))
                      ((NewButton KiT_Action ''new-tab'')\<lparr>Data := IntData (-1), Icon := ''plus''\<rparr>)
                      (Kids tb)\<rparr>, fr)\<rparr>)"
  by (simp add: ConfigNewTabButtonKids_def InsertChild_def updTabs_def)

lemma ConfigNewTabButtonKids_remove:
  "TvKids tv = Some (tb, fr) \<Longrightarrow> \<not> NewTabButton tv \<Longrightarrow> length (Kids tb) \<noteq> length (Kids fr) \<Longrightarrow>
   Kids tb \<noteq> [] \<Longrightarrow>
   ConfigNewTabButtonKids tv =
     Some (True, tv\<lparr>TvKids := Some (tb\<lparr>Kids := removeAt (length (Kids tb) - 1) (Kids tb)\<rparr>, fr)\<rparr>)"
proof -
  assume K: "TvKids tv = Some (tb, fr)" and F: "\<not> NewTabButton tv"
    and L: "length (Kids tb) \<noteq> length (Kids fr)" and N: "Kids tb \<noteq> []"
  from N have "nat (int (length (Kids tb)) - 1) = length (Kids tb) - 1" by simp
  with K F L N show ?thesis
    by (simp add: ConfigNewTabButtonKids_def DeleteChildAtIndex_def updTabs_def)
qed

lemma CurTab_inited:
  "TvKids tv = Some (tb, fr) \<Longrightarrow>
   CurTab tv =
     (if Kids fr = [] \<or> StackTop fr < 0 then Some ((None, -1, False), tv)
      else if StackTop fr < int (length (Kids fr))
           then Some ((Some (Kids fr ! nat (StackTop fr)), StackTop fr, True), tv)
           else None)"
  by (simp add: CurTab_def KnownChild_def)

section \<open>The first use of a tab view\<close>

lemma TabKids_inited: "TvKids tv = Some (tb, fr) \<Longrightarrow> TabKids tv = Kids tb"
  by (simp add: TabKids_def)

lemma FrameKids_inited: "TvKids tv = Some (tb, fr) \<Longrightarrow> FrameKids tv = Kids fr"
  by (simp add: FrameKids_def)

lemma FrameStackTop_inited: "TvKids tv = Some (tb, fr) \<Longrightarrow> FrameStackTop tv = StackTop fr"
  by (simp add: FrameStackTop_def)

lemma WellFormed_inited: "TvKids tv = Some (tb, fr) \<Longrightarrow> WellFormed tv = Aligned (Kids tb) (Kids fr)"
  by (simp add: WellFormed_def TabKids_inited FrameKids_inited)

lemma TabKids_init: "InitTabView tv = Some tv0 \<Longrightarrow> TabKids tv = TabKids tv0"
  by (simp add: TabKids_def Tabs_init)

lemma FrameKids_init: "InitTabView tv = Some tv0 \<Longrightarrow> FrameKids tv = FrameKids tv0"
  by (simp add: FrameKids_def Frame_init)

lemma FrameStackTop_init: "InitTabView tv = Some tv0 \<Longrightarrow> FrameStackTop tv = FrameStackTop tv0"
  by (simp add: FrameStackTop_def Frame_init)

lemma WellFormed_init: "InitTabView tv = Some tv0 \<Longrightarrow> WellFormed tv = WellFormed tv0"
  by (simp add: WellFormed_def TabKids_init FrameKids_init)

lemma WellFormed_fresh: "TvKids tv = None \<Longrightarrow> WellFormed tv"
  by (simp add: WellFormed_def TabKids_def FrameKids_def Tabs_def Frame_def InitTabView_fresh
      NewFrame_def Aligned_def NewButton_def)

lemma NTabs_init: "InitTabView tv = Some tv0 \<Longrightarrow> NTabs tv = NTabs tv0"
  by (simp add: NTabs_def Frame_init)

lemma CurTab_init: "InitTabView tv = Some tv0 \<Longrightarrow> CurTab tv = CurTab tv0"
  by (simp add: CurTab_def NTabs_init)

lemma InsertTab_init: "InitTabView tv = Some tv0 \<Longrightarrow> InsertTab w l i tv = InsertTab w l i tv0"
  by (simp add: InsertTab_def Frame_init)

lemma AddTab_init: "InitTabView tv = Some tv0 \<Longrightarrow> AddTab w l tv = AddTab w l tv0"
  by (simp add: AddTab_def Frame_init)

lemma InsertNewTab_init: "InitTabView tv = Some tv0 \<Longrightarrow> InsertNewTab t l i tv = InsertNewTab t l i tv0"
  by (simp add: InsertNewTab_def Frame_init)

lemma AddNewTab_init: "InitTabView tv = Some tv0 \<Longrightarrow> AddNewTab t l tv = AddNewTab t l tv0"
  by (simp add: AddNewTab_def Frame_init)

lemma AddNewTabAction_init:
  "InitTabView tv = Some tv0 \<Longrightarrow> AddNewTabAction t l tv = AddNewTabAction t l tv0"
  by (simp add: AddNewTabAction_def AddNewTab_init)

lemma TabAtIndex_init: "InitTabView tv = Some tv0 \<Longrightarrow> TabAtIndex i tv = TabAtIndex i tv0"
  by (simp add: TabAtIndex_def Frame_init)

lemma SelectTabIndex_init: "InitTabView tv = Some tv0 \<Longrightarrow> SelectTabIndex i tv = SelectTabIndex i tv0"
  by (simp add: SelectTabIndex_def TabAtIndex_init)

lemma SelectTabIndexAction_init:
  "InitTabView tv = Some tv0 \<Longrightarrow> SelectTabIndexAction i tv = SelectTabIndexAction i tv0"
  by (simp add: SelectTabIndexAction_def SelectTabIndex_init)

lemma TabByName_init: "InitTabView tv = Some tv0 \<Longrightarrow> TabByName l tv = TabByName l tv0"
  by (simp add: TabByName_def Tabs_init)

lemma SelectTabByName_init:
  "InitTabView tv = Some tv0 \<Longrightarrow> SelectTabByName l tv = SelectTabByName l tv0"
  by (simp add: SelectTabByName_def TabByName_init)

lemma DeleteTabIndex_init:
  "InitTabView tv = Some tv0 \<Longrightarrow> DeleteTabIndex i d tv = DeleteTabIndex i d tv0"
  by (simp add: DeleteTabIndex_def TabAtIndex_init)

lemma DeleteTabIndexAction_init:
  "InitTabView tv = Some tv0 \<Longrightarrow> DeleteTabIndexAction i tv = DeleteTabIndexAction i tv0"
  by (simp add: DeleteTabIndexAction_def DeleteTabIndex_init)

lemma ConfigNewTabButton_init:
  "InitTabView tv = Some tv0 \<Longrightarrow> ConfigNewTabButton tv = ConfigNewTabButton tv0"
  by (simp add: ConfigNewTabButton_def InitTabView_idem)

section \<open>Every operation keeps strip and content frame aligned\<close>

lemma InsertTab_valid:
  "TvKids tv = Some (tb, fr) \<Longrightarrow> InsertTab w l idx tv = Some tv' \<Longrightarrow>
   0 \<le> idx \<and> idx \<le> int (length (Kids fr))"
  by (simp add: InsertTab_def InsertChild_def split: if_splits)

lemma InsertTab_keeps:
  assumes K: "TvKids tv = Some (tb, fr)" and A: "Aligned (Kids tb) (Kids fr)"
    and D: "InsertTab w l idx tv = Some tv'"
  shows "TvKids tv' \<noteq> None \<and> WellFormed tv'"
proof -
  from InsertTab_valid [OF K D] have i0: "0 \<le> idx" and i1: "idx \<le> int (length (Kids fr))"
    by simp_all
  have ty: "BTyp ((NewButton KiT_TabButton l)\<lparr>Data := d, Text := l, Tooltip := l\<rparr>) = KiT_TabButton" for d
    by (simp add: NewButton_def)
  have ty': "BTyp ((NewButton KiT_TabButton l)\<lparr>Data := d, Text := l, Tooltip := l, Selected := True\<rparr>) = KiT_TabButton" for d
    by (simp add: NewButton_def)
  show ?thesis
  proof (cases "Kids fr = []")
    case True
    with i0 i1 have "idx = 0" by simp
    with D InsertTab_empty [OF K True, of w l]
    have tv': "tv' = tv\<lparr>FullReRender := True, TvKids := Some
            (tb\<lparr>Kids := insertAt 0
                 ((NewButton KiT_TabButton l)
                    \<lparr>Data := IntData 0, Text := l, Tooltip := l, Selected := True\<rparr>)
                 (Kids tb)\<rparr>,
             fr\<lparr>Kids := [w], StackTop := 0\<rparr>)\<rparr>" by simp
    have "Aligned (insertAt 0 ((NewButton KiT_TabButton l)
                    \<lparr>Data := IntData 0, Text := l, Tooltip := l, Selected := True\<rparr>) (Kids tb))
            (insertAt 0 w (Kids fr))"
      using A ty' by (intro Aligned_insert) simp_all
    with True show ?thesis
      by (simp add: tv' WellFormed_def TabKids_def FrameKids_def insertAt_def)
  next
    case False
    from D InsertTab_nonempty [OF K Aligned_len [OF A] False i0 i1, of w l]
    have tv': "tv' = tv\<lparr>FullReRender := True, TvKids := Some
            (tb\<lparr>Kids := insertAt (nat idx)
                 ((NewButton KiT_TabButton l)
                    \<lparr>Data := IntData idx, Text := l, Tooltip := l\<rparr>)
                 (Kids tb)\<rparr>,
             fr\<lparr>Kids := insertAt (nat idx) (w\<lparr>Invisible := True\<rparr>) (Kids fr)\<rparr>)\<rparr>" by simp
    have "Aligned (insertAt (nat idx) ((NewButton KiT_TabButton l)
                    \<lparr>Data := IntData idx, Text := l, Tooltip := l\<rparr>) (Kids tb))
            (insertAt (nat idx) (w\<lparr>Invisible := True\<rparr>) (Kids fr))"
      using A ty i0 i1 by (intro Aligned_insert) simp_all
    then show ?thesis
      by (simp add: tv' WellFormed_def TabKids_def FrameKids_def)
  qed
qed

lemma SelectTabIndex_keeps:
  assumes K: "TvKids tv = Some (tb, fr)" and A: "Aligned (Kids tb) (Kids fr)"
    and D: "SelectTabIndex idx tv = Some (r, tv')"
  shows "TvKids tv' \<noteq> None \<and> WellFormed tv'"
proof -
  consider (inv) "idx < 0 \<or> int (length (Kids fr)) \<le> idx"
    | (same) "0 \<le> idx" "idx < int (length (Kids fr))" "StackTop fr = idx"
    | (other) "0 \<le> idx" "idx < int (length (Kids fr))" "StackTop fr \<noteq> idx"
    by linarith
  then show ?thesis
  proof cases
    case inv
    from D SelectTabIndex_invalid [OF K inv] have "tv' = tv\<lparr>Logged := Logged tv @ [(idx, int (length (Kids fr)))]\<rparr>"
      by simp
    with K A show ?thesis by (simp add: WellFormed_def TabKids_def FrameKids_def)
  next
    case same
    from D SelectTabIndex_same [OF K A same] have "tv' = tv" by simp
    with K A show ?thesis by (simp add: WellFormed_inited)
  next
    case other
    from D SelectTabIndex_other [OF K A other]
    have "tv' = tv\<lparr>TvKids := Some (tb\<lparr>Kids := SelectedKids idx (length (Kids fr)) (Kids tb)\<rparr>,
                               fr\<lparr>StackTop := idx\<rparr>)\<rparr>" by simp
    with Aligned_Selected [OF other(1) A] show ?thesis
      by (simp add: WellFormed_def TabKids_def FrameKids_def)
  qed
qed

lemma DeleteTabIndex_keeps:
  assumes K: "TvKids tv = Some (tb, fr)" and A: "Aligned (Kids tb) (Kids fr)"
    and D: "DeleteTabIndex idx d tv = Some (r, tv')"
  shows "TvKids tv' \<noteq> None \<and> WellFormed tv'"
proof (cases "0 \<le> idx \<and> idx < int (length (Kids fr))")
  case False
  then have inv: "idx < 0 \<or> int (length (Kids fr)) \<le> idx" by linarith
  from D DeleteTabIndex_invalid [OF K inv] have "tv' = tv\<lparr>Logged := Logged tv @ [(idx, int (length (Kids fr)))]\<rparr>"
    by simp
  with K A show ?thesis by (simp add: WellFormed_def TabKids_def FrameKids_def)
next
  case True
  then have i0: "0 \<le> idx" and i1: "idx < int (length (Kids fr))" by simp_all
  let ?rks = "RenumberedFrom (length (Kids fr) - 1) 0 (removeAt (nat idx) (Kids tb))"
  have A1: "Aligned ?rks (removeAt (nat idx) (Kids fr))"
    using A i0 i1 by (intro Aligned_Renumbered Aligned_remove) simp_all
  have A2: "Aligned (SelectedKids (idx - 1) (length (Kids fr) - 1) ?rks) (removeAt (nat idx) (Kids fr))"
    if "0 < idx"
    using that A1 by (intro Aligned_Selected) simp_all
  from D DeleteTabIndex_valid [OF K A i0 i1, of d] A1 A2 show ?thesis
    by (auto simp: WellFormed_def TabKids_def FrameKids_def)
qed

lemma TabByName_state:
  "TvKids tv = Some (tb, fr) \<Longrightarrow> TabByName l tv = Some (r, tv') \<Longrightarrow> tv' = tv"
  by (auto simp: TabByName_def Let_def split: prod.splits if_splits Option.bind_splits)

lemma ConfigNewTabButton_keeps:
  assumes K: "TvKids tv = Some (tb, fr)" and A: "Aligned (Kids tb) (Kids fr)"
    and D: "ConfigNewTabButton tv = Some (r, tv')"
  shows "TvKids tv' \<noteq> None \<and> WellFormed tv'"
proof -
  from A have len: "length (Kids tb) = length (Kids fr) \<or> length (Kids tb) = Suc (length (Kids fr))"
    by (simp add: Aligned_def)
  have pl: "BTyp ((NewButton KiT_Action ''new-tab'')\<lparr>Data := IntData (-1), Icon := ''plus''\<rparr>) \<noteq> KiT_TabButton"
    by (simp add: NewButton_def)
  consider (noop) "length (Kids tb) = length (Kids fr) + (if NewTabButton tv then 1 else 0)"
    | (add) "NewTabButton tv" "length (Kids tb) = length (Kids fr)"
    | (del) "\<not> NewTabButton tv" "length (Kids tb) = Suc (length (Kids fr))"
    using len by (cases "NewTabButton tv") auto
  then show ?thesis
  proof cases
    case noop
    from D ConfigNewTabButtonKids_noop [OF K noop] K have "tv' = tv"
      by (simp add: ConfigNewTabButton_inited)
    with K A show ?thesis by (simp add: WellFormed_inited)
  next
    case add
    from add(2) have neq: "length (Kids tb) \<noteq> Suc (length (Kids fr))" by simp
    from D ConfigNewTabButtonKids_add [OF K add(1) neq] add(2) K
      Aligned_append_other [OF A add(2) pl]
    show ?thesis
      by (auto simp: ConfigNewTabButton_inited WellFormed_def TabKids_def FrameKids_def)
  next
    case del
    from del(2) have ne: "Kids tb \<noteq> []" and neq: "length (Kids tb) \<noteq> length (Kids fr)"
      by auto
    from D ConfigNewTabButtonKids_remove [OF K del(1) neq ne] del(2) K
      Aligned_remove_last [OF A del(2)]
    show ?thesis
      by (auto simp: ConfigNewTabButton_inited WellFormed_def TabKids_def FrameKids_def)
  qed
qed

lemma InsertNewTab_InsertTab:
  "TvKids tv = Some (tb, fr) \<Longrightarrow>
   InsertNewTab t l idx tv = do {
     tv3 \<leftarrow> InsertTab (NewNode2D t l) l idx tv;
     (fr3, tv4) \<leftarrow> Frame tv3;
     widg \<leftarrow> KnownChild (Kids fr3) idx;
     Some (widg, tv4)
   }"
  by (simp add: InsertNewTab_def InsertTab_def InsertChild_def)

lemma InsertNewTab_keeps:
  assumes K: "TvKids tv = Some (tb, fr)" and A: "Aligned (Kids tb) (Kids fr)"
    and D: "InsertNewTab t l idx tv = Some (w, tv')"
  shows "TvKids tv' \<noteq> None \<and> WellFormed tv'"
proof -
  from D obtain tv3 where I: "InsertTab (NewNode2D t l) l idx tv = Some tv3"
    and F: "Frame tv3 \<bind> (\<lambda>(fr3, tv4). KnownChild (Kids fr3) idx \<bind> (\<lambda>widg. Some (widg, tv4))) = Some (w, tv')"
    by (auto simp: InsertNewTab_InsertTab [OF K] split: Option.bind_splits)
  from InsertTab_keeps [OF K A I] have k3: "TvKids tv3 \<noteq> None" and w3: "WellFormed tv3"
    by simp_all
  from F k3 have "tv' = tv3" by (auto split: Option.bind_splits)
  with k3 w3 show ?thesis by simp
qed

lemma AddTab_keeps:
  assumes K: "TvKids tv = Some (tb, fr)" and A: "Aligned (Kids tb) (Kids fr)"
    and D: "AddTab w l tv = Some (i, tv')"
  shows "TvKids tv' \<noteq> None \<and> WellFormed tv'"
proof -
  from D K have "InsertTab w l (int (length (Kids fr))) tv = Some tv'"
    by (auto simp: AddTab_def Let_def split: Option.bind_splits)
  from InsertTab_keeps [OF K A this] show ?thesis .
qed

lemma AddNewTab_keeps:
  assumes K: "TvKids tv = Some (tb, fr)" and A: "Aligned (Kids tb) (Kids fr)"
    and D: "AddNewTab t l tv = Some (r, tv')"
  shows "TvKids tv' \<noteq> None \<and> WellFormed tv'"
proof -
  from D K obtain w where "InsertNewTab t l (int (length (Kids fr))) tv = Some (w, tv')"
    by (auto simp: AddNewTab_def Let_def split: Option.bind_splits)
  from InsertNewTab_keeps [OF K A this] show ?thesis .
qed

lemma TvKids_Emit [simp]: "TvKids (Emit s d tv) = TvKids tv"
  by (simp add: Emit_def)

lemma WellFormed_same_kids:
  "TvKids tv \<noteq> None \<Longrightarrow> TvKids tv' = TvKids tv \<Longrightarrow> WellFormed tv' = WellFormed tv"
  by (auto simp: WellFormed_def TabKids_def FrameKids_def)

lemma Emit_keeps:
  "TvKids tv \<noteq> None \<and> WellFormed tv \<Longrightarrow> TvKids (Emit s d tv) \<noteq> None \<and> WellFormed (Emit s d tv)"
  using WellFormed_same_kids [of tv "Emit s d tv"] by simp

lemma Do_keeps_inited:
  assumes K: "TvKids tv = Some (tb, fr)" and A: "Aligned (Kids tb) (Kids fr)"
    and D: "Do op tv = Some tv'"
  shows "TvKids tv' \<noteq> None \<and> WellFormed tv'"
proof (cases op)
  case (OpInsertTab w l i)
  with D InsertTab_keeps [OF K A] show ?thesis by simp
next
  case (OpAddTab w l)
  with D AddTab_keeps [OF K A] show ?thesis by auto
next
  case (OpInsertNewTab t l i)
  with D InsertNewTab_keeps [OF K A] show ?thesis by auto
next
  case (OpAddNewTab t l)
  with D AddNewTab_keeps [OF K A] show ?thesis by auto
next
  case (OpAddNewTabAction t l)
  with D obtain r tv1 where "AddNewTab t l tv = Some (r, tv1)" and "tv' = Emit TabAdded (snd r) tv1"
    by (auto simp: AddNewTabAction_def split: Option.bind_splits)
  with AddNewTab_keeps [OF K A] Emit_keeps show ?thesis by blast
next
  case (OpSelectTabIndex i)
  with D SelectTabIndex_keeps [OF K A] show ?thesis by auto
next
  case (OpSelectTabIndexAction i)
  with D obtain r tv1 where S: "SelectTabIndex i tv = Some (r, tv1)"
    and "tv' = Emit TabSelected i tv1 \<or> tv' = tv1"
    by (auto simp: SelectTabIndexAction_def split: Option.bind_splits if_splits)
  with SelectTabIndex_keeps [OF K A S] Emit_keeps show ?thesis by blast
next
  case (OpSelectTabByName l)
  with D obtain x where S: "SelectTabByName l tv = Some (x, tv')" by auto
  then obtain r tv1 where T: "TabByName l tv = Some (r, tv1)"
    by (auto simp: SelectTabByName_def split: Option.bind_splits)
  from TabByName_state [OF K T] have tv1: "tv1 = tv" .
  obtain w i ok where r: "r = (w, i, ok)" by (cases r) auto
  show ?thesis
  proof (cases ok)
    case True
    with S T tv1 r obtain q where "SelectTabIndex i tv = Some (q, tv')"
      by (auto simp: SelectTabByName_def split: Option.bind_splits)
    from SelectTabIndex_keeps [OF K A this] show ?thesis .
  next
    case False
    with S T tv1 r have "tv' = tv" by (simp add: SelectTabByName_def)
    with K A show ?thesis by (simp add: WellFormed_inited)
  qed
next
  case (OpDeleteTabIndex i d)
  with D DeleteTabIndex_keeps [OF K A] show ?thesis by auto
next
  case (OpDeleteTabIndexAction i)
  with D obtain r tv1 where S: "DeleteTabIndex i True tv = Some (r, tv1)"
    and "tv' = Emit TabDeleted i tv1 \<or> tv' = tv1"
    by (auto simp: DeleteTabIndexAction_def split: Option.bind_splits if_splits)
  with DeleteTabIndex_keeps [OF K A S] Emit_keeps show ?thesis by blast
next
  case OpConfigNewTabButton
  with D ConfigNewTabButton_keeps [OF K A] show ?thesis by auto
next
  case (OpSetNewTabButton b)
  with D have "tv' = tv\<lparr>NewTabButton := b\<rparr>" by simp
  with K A WellFormed_same_kids [of tv tv'] show ?thesis by (simp add: WellFormed_inited)
qed

lemma Do_init:
  assumes I: "InitTabView tv = Some tv0" and N: "\<not> (\<exists>b. op = OpSetNewTabButton b)"
  shows "Do op tv = Do op tv0"
proof (cases op)
  case (OpSetNewTabButton b)
  with N show ?thesis by blast
qed (simp_all add: InsertTab_init [OF I] AddTab_init [OF I] InsertNewTab_init [OF I]
      AddNewTab_init [OF I] AddNewTabAction_init [OF I] SelectTabIndex_init [OF I]
      SelectTabIndexAction_init [OF I] SelectTabByName_init [OF I] DeleteTabIndex_init [OF I]
      DeleteTabIndexAction_init [OF I] ConfigNewTabButton_init [OF I])

lemma Do_WellFormed:
  assumes W: "WellFormed tv" and D: "Do op tv = Some tv'"
  shows "WellFormed tv'"
proof (cases "\<exists>b. op = OpSetNewTabButton b")
  case True
  then obtain b where op: "op = OpSetNewTabButton b" ..
  with D have tv': "tv' = tv\<lparr>NewTabButton := b\<rparr>" by simp
  show ?thesis
  proof (cases "TvKids tv")
    case None
    with tv' show ?thesis by (simp add: WellFormed_fresh)
  next
    case (Some p)
    with W tv' WellFormed_same_kids [of tv tv'] show ?thesis by simp
  qed
next
  case False
  from InitTabView_total [of tv] obtain tv0 tb fr
    where I: "InitTabView tv = Some tv0" and K: "TvKids tv0 = Some (tb, fr)" by blast
  from W have "WellFormed tv0" by (simp add: WellFormed_init [OF I])
  then have A: "Aligned (Kids tb) (Kids fr)" by (simp add: WellFormed_inited [OF K])
  from D have "Do op tv0 = Some tv'" by (simp add: Do_init [OF I False])
  from Do_keeps_inited [OF K A this] show ?thesis by simp
qed

lemma Run_WellFormed: "WellFormed tv \<Longrightarrow> Run ops tv = Some tv' \<Longrightarrow> WellFormed tv'"
proof (induction ops arbitrary: tv)
  case Nil
  then show ?case by simp
next
  case (Cons op ops)
  then show ?case by (auto split: option.splits dest: Do_WellFormed)
qed

lemma WellFormed_NewTabView: "WellFormed NewTabView"
  by (simp add: WellFormed_fresh NewTabView_def)

section \<open>Well-formed tab views\<close>

lemma TwoTabs_reached:
  "Run [OpAddTab (NewNode2D KiT_Frame ''wa'') ''a'', OpAddTab (NewNode2D KiT_Frame ''wb'') ''b'']
     NewTabView = Some TwoTabs"
  by code_simp

lemma InitTabView_fields:
  "InitTabView tv = Some tv0 \<Longrightarrow>
   Emitted tv0 = Emitted tv \<and> Logged tv0 = Logged tv \<and> NewTabButton tv0 = NewTabButton tv \<and>
   FullReRender tv0 = FullReRender tv \<and> MaxChars tv0 = MaxChars tv"
  by (cases "TvKids tv") (auto simp: InitTabView_fresh split: if_splits)

lemma WellFormed_obtain:
  assumes W: "WellFormed tv"
  obtains tv0 tb fr where "InitTabView tv = Some tv0" "TvKids tv0 = Some (tb, fr)"
    "Aligned (Kids tb) (Kids fr)" "TabKids tv = Kids tb" "FrameKids tv = Kids fr"
    "FrameStackTop tv = StackTop fr"
proof -
  from InitTabView_total [of tv] obtain tv0 tb fr
    where I: "InitTabView tv = Some tv0" and K: "TvKids tv0 = Some (tb, fr)" by blast
  from W have "Aligned (Kids tb) (Kids fr)"
    by (simp add: WellFormed_init [OF I] WellFormed_inited [OF K])
  with I K that show ?thesis
    by (simp add: TabKids_init [OF I] FrameKids_init [OF I] FrameStackTop_init [OF I]
        TabKids_inited [OF K] FrameKids_inited [OF K] FrameStackTop_inited [OF K])
qed

lemma removeAt_insertAt: "i \<le> length ks \<Longrightarrow> removeAt i (insertAt i k ks) = ks"
  by (simp add: removeAt_def insertAt_def)

lemma Aligned_TabButtons:
  assumes A: "Aligned tks fks"
  shows "filter (\<lambda>k. BTyp k = KiT_TabButton) tks = take (length fks) tks"
proof -
  have "filter (\<lambda>k. BTyp k = KiT_TabButton) (take (length fks) tks @ drop (length fks) tks)
        = take (length fks) tks"
    using A unfolding Aligned_def filter_append
    by (simp add: list_all_iff)
  then show ?thesis by simp
qed

lemma TwoTabs_WellFormed: "WellFormed TwoTabs"
  by (simp add: WellFormed_def TabKids_def FrameKids_def TwoTabs_def Aligned_def)

lemma TwoTabs_init: "InitTabView TwoTabs = Some TwoTabs"
  by (simp add: TwoTabs_def)

lemma TwoTabs_FrameKids:
  "FrameKids TwoTabs = [\<lparr>Nm = ''wa'', Typ = KiT_Frame, Invisible = False\<rparr>,
                        \<lparr>Nm = ''wb'', Typ = KiT_Frame, Invisible = True\<rparr>]"
  by (simp add: FrameKids_def TwoTabs_def)

lemma TwoTabs_TabKids:
  "TabKids TwoTabs = [\<lparr>BNm = ''a'', BTyp = KiT_TabButton, Data = IntData 0, Text = ''a'',
                    Tooltip = ''a'', Icon = [], Selected = True\<rparr>,
                  \<lparr>BNm = ''b'', BTyp = KiT_TabButton, Data = IntData 1, Text = ''b'',
                    Tooltip = ''b'', Icon = [], Selected = False\<rparr>]"
  by (simp add: TabKids_def TwoTabs_def)

lemma TwoTabs_StackTop: "FrameStackTop TwoTabs = 0"
  by (simp add: FrameStackTop_def TwoTabs_def)

text \<open>After any sequence of operations on a new tab view the strip has one tab button per content widget.\<close>

lemma Run_tab_count:
  assumes R: "Run ops NewTabView = Some tv"
  shows "length (TabButtons tv) = length (FrameKids tv)"
proof -
  from Run_WellFormed [OF WellFormed_NewTabView R] have "Aligned (TabKids tv) (FrameKids tv)"
    by (simp add: WellFormed_def)
  from Aligned_TabButtons [OF this] Aligned_len [OF this] show ?thesis
    by (simp add: TabButtons_def)
qed

lemma TabKids_upd: "TabKids (tv\<lparr>TvKids := Some (a, b)\<rparr>) = Kids a"
  by (simp add: TabKids_def)

lemma FrameKids_upd: "FrameKids (tv\<lparr>TvKids := Some (a, b)\<rparr>) = Kids b"
  by (simp add: FrameKids_def)

lemma FrameStackTop_upd: "FrameStackTop (tv\<lparr>TvKids := Some (a, b)\<rparr>) = StackTop b"
  by (simp add: FrameStackTop_def)

text \<open>\<open>DeleteTabIndex\<close> leaves every tab button tagged with its position.\<close>

lemma DeleteTabIndex_renumbers:
  assumes W: "WellFormed tv" and i0: "0 \<le> idx" and i1: "idx < int (length (FrameKids tv))"
  shows "\<exists>r tv'. DeleteTabIndex idx destroy tv = Some (r, tv') \<and>
           FrameKids tv' = removeAt (nat idx) (FrameKids tv) \<and>
           (\<forall>j < length (FrameKids tv'). Data (TabKids tv' ! j) = IntData (int j))"
proof -
  from W obtain tv0 tb fr where I: "InitTabView tv = Some tv0" and K: "TvKids tv0 = Some (tb, fr)"
    and A: "Aligned (Kids tb) (Kids fr)" and F: "FrameKids tv = Kids fr"
    by (rule WellFormed_obtain)
  let ?n = "length (Kids fr)"
  let ?rks = "RenumberedFrom (?n - 1) 0 (removeAt (nat idx) (Kids tb))"
  from i0 i1 F have i: "nat idx < ?n" and j0: "0 \<le> idx" and j1: "idx < int ?n" by simp_all
  from i Aligned_len [OF A] have lt: "nat idx < length (Kids tb)" by simp
  have len: "?n - 1 \<le> length (removeAt (nat idx) (Kids tb))"
    using lt Aligned_len [OF A] by simp
  have r: "Data (?rks ! j) = IntData (int j)" if "j < ?n - 1" for j
    using that len by (simp add: nth_RenumberedFrom)
  have s: "Data (SelectedKids (idx - 1) (?n - 1) ?rks ! j) = IntData (int j)"
    if "j < ?n - 1" "0 < idx" for j
    using that len r [of j] by (simp add: nth_SelectedKids)
  from DeleteTabIndex_valid [OF K A j0 j1, of destroy] i r s show ?thesis
    by (auto simp: DeleteTabIndex_init [OF I] F TabKids_upd FrameKids_upd FrameStackTop_upd)
qed

text \<open>Deleting the visible tab at an index above 0 selects the tab before it.\<close>

lemma DeleteTabIndex_selects_previous:
  assumes W: "WellFormed tv" and i0: "0 < idx" and i1: "idx < int (length (FrameKids tv))"
    and V: "FrameStackTop tv = idx"
  shows "\<exists>r tv'. DeleteTabIndex idx destroy tv = Some (r, tv') \<and>
           FrameStackTop tv' = idx - 1 \<and>
           (\<forall>j < length (FrameKids tv'). Selected (TabKids tv' ! j) = (int j = idx - 1))"
proof -
  from W obtain tv0 tb fr where I: "InitTabView tv = Some tv0" and K: "TvKids tv0 = Some (tb, fr)"
    and A: "Aligned (Kids tb) (Kids fr)" and F: "FrameKids tv = Kids fr"
    and S: "FrameStackTop tv = StackTop fr"
    by (rule WellFormed_obtain)
  let ?n = "length (Kids fr)"
  let ?rks = "RenumberedFrom (?n - 1) 0 (removeAt (nat idx) (Kids tb))"
  from i0 i1 F have i: "nat idx < ?n" and j0: "0 \<le> idx" and j1: "idx < int ?n" by simp_all
  from i Aligned_len [OF A] have lt: "nat idx < length (Kids tb)" by simp
  have len: "?n - 1 \<le> length (removeAt (nat idx) (Kids tb))"
    using lt Aligned_len [OF A] by simp
  have s: "Selected (SelectedKids (idx - 1) (?n - 1) ?rks ! j) = (int j = idx - 1)"
    if "j < ?n - 1" for j
    using that len i0 by (simp add: nth_SelectedKids)
  from DeleteTabIndex_valid [OF K A j0 j1, of destroy] i s i0 V S show ?thesis
    by (auto simp: DeleteTabIndex_init [OF I] F TabKids_upd FrameKids_upd FrameStackTop_upd)
qed

text \<open>
  What \<open>InsertTab\<close> does on a well-formed tab view for \<open>0 \<le> idx \<le>\<close> the number of tabs.
  If the content frame was empty, the frame then holds \<open>widg\<close> alone with \<open>StackTop = 0\<close>
  and the new button, selected, heads the strip. Otherwise the number \<open>StackTop\<close> is
  unchanged, \<open>widg\<close> is inserted at \<open>idx\<close> marked invisible, the new button is inserted at
  \<open>idx\<close> unselected, and the other children of the strip are unchanged.
\<close>

lemma InsertTab_selection:
  assumes W: "WellFormed tv" and i0: "0 \<le> idx" and i1: "idx \<le> int (length (FrameKids tv))"
  shows "\<exists>tv'. InsertTab widg label idx tv = Some tv' \<and>
     (if FrameKids tv = [] then
        FrameStackTop tv' = 0 \<and> FrameKids tv' = [widg] \<and>
        TabKids tv' =
          (NewButton KiT_TabButton label)
            \<lparr>Data := IntData 0, Text := label, Tooltip := label, Selected := True\<rparr> # TabKids tv
      else
        FrameStackTop tv' = FrameStackTop tv \<and>
        FrameKids tv' = insertAt (nat idx) (widg\<lparr>Invisible := True\<rparr>) (FrameKids tv) \<and>
        TabKids tv' =
          insertAt (nat idx)
            ((NewButton KiT_TabButton label)\<lparr>Data := IntData idx, Text := label, Tooltip := label\<rparr>)
            (TabKids tv) \<and>
        \<not> Selected (TabKids tv' ! nat idx) \<and>
        removeAt (nat idx) (TabKids tv') = TabKids tv)"
proof -
  from W obtain tv0 tb fr where I: "InitTabView tv = Some tv0" and K: "TvKids tv0 = Some (tb, fr)"
    and A: "Aligned (Kids tb) (Kids fr)" and T: "TabKids tv = Kids tb"
    and F: "FrameKids tv = Kids fr" and S: "FrameStackTop tv = StackTop fr"
    by (rule WellFormed_obtain)
  note L = Aligned_len [OF A]
  show ?thesis
  proof (cases "Kids fr = []")
    case True
    with i0 i1 F have "idx = 0" by simp
    with True T F InsertTab_empty [OF K True, of widg label] show ?thesis
      by (simp add: InsertTab_init [OF I] TabKids_def FrameKids_def FrameStackTop_def insertAt_def)
  next
    case False
    from i0 i1 F L have il: "nat idx \<le> length (Kids tb)" by simp
    from False T F S il InsertTab_nonempty [OF K L False i0, of widg label] i1 show ?thesis
      by (simp add: InsertTab_init [OF I] TabKids_def FrameKids_def FrameStackTop_def
          nth_insertAt_same removeAt_insertAt NewButton_def)
  qed
qed

lemma InsertTab_selection_witness:
  "WellFormed NewTabView \<and> WellFormed TwoTabs \<and>
   (\<exists>tv'. InsertTab (NewNode2D KiT_Frame ''wa'') ''a'' 0 NewTabView = Some tv' \<and>
      FrameStackTop tv' = 0 \<and> FrameKids tv' = [NewNode2D KiT_Frame ''wa''] \<and>
      map Selected (TabKids tv') = [True]) \<and>
   (\<exists>tv'. InsertTab (NewNode2D KiT_Frame ''wc'') ''c'' 0 TwoTabs = Some tv' \<and>
      FrameStackTop tv' = 0 \<and> map Nm (FrameKids tv') = [''wc'', ''wa'', ''wb''] \<and>
      map Invisible (FrameKids tv') = [True, False, True] \<and>
      map Selected (TabKids tv') = [False, True, False])"
proof -
  have F0: "FrameKids NewTabView = []" and T0: "TabKids NewTabView = []"
    by (simp_all add: FrameKids_def TabKids_def Frame_def Tabs_def InitTabView_fresh NewTabView_def
        NewFrame_def)
  have 1: "\<exists>tv'. InsertTab (NewNode2D KiT_Frame ''wa'') ''a'' 0 NewTabView = Some tv' \<and>
      FrameStackTop tv' = 0 \<and> FrameKids tv' = [NewNode2D KiT_Frame ''wa''] \<and>
      map Selected (TabKids tv') = [True]"
    using InsertTab_selection [OF WellFormed_NewTabView, of 0 "NewNode2D KiT_Frame ''wa''" "''a''"]
    by (auto simp: F0 T0)
  have 2: "\<exists>tv'. InsertTab (NewNode2D KiT_Frame ''wc'') ''c'' 0 TwoTabs = Some tv' \<and>
      FrameStackTop tv' = 0 \<and> map Nm (FrameKids tv') = [''wc'', ''wa'', ''wb''] \<and>
      map Invisible (FrameKids tv') = [True, False, True] \<and>
      map Selected (TabKids tv') = [False, True, False]"
    using InsertTab_selection [OF TwoTabs_WellFormed, of 0 "NewNode2D KiT_Frame ''wc''" "''c''"]
    by (auto simp: TwoTabs_FrameKids TwoTabs_TabKids TwoTabs_StackTop insertAt_def NewNode2D_def
        NewButton_def)
  from WellFormed_NewTabView TwoTabs_WellFormed 1 2 show ?thesis by blast
qed

text \<open>
  Adding and finding a tab on a well-formed tab view. When no tab button is named
  \<open>label\<close>, \<open>AddTab(widg, label)\<close> returns the number of tabs \<open>i\<close>, and \<open>TabByName(label)\<close>
  then returns index \<open>i\<close> and the widget added. \<open>TabByName\<close> returns the first child of the
  strip with the given name when that child is at a tab position, and not-found, with the
  state unchanged, when no child of the strip has the name.
\<close>

lemma AddTab_TabByName:
  assumes W: "WellFormed tv" and I: "InitTabView tv = Some tv0"
  shows
    "(label \<notin> BNm ` set (TabButtons tv) \<longrightarrow>
       (\<exists>tv1. AddTab widg label tv = Some (int (length (FrameKids tv)), tv1) \<and>
          TabByName label tv1 =
            Some ((Some (if FrameKids tv = [] then widg else widg\<lparr>Invisible := True\<rparr>),
                   int (length (FrameKids tv)), True), tv1))) \<and>
     (label \<notin> BNm ` set (TabKids tv) \<longrightarrow> TabByName label tv = Some ((None, -1, False), tv0)) \<and>
     (\<forall>xs k ys. TabKids tv = xs @ k # ys \<and> label \<notin> BNm ` set xs \<and> BNm k = label \<and>
         length xs < length (FrameKids tv) \<longrightarrow>
       TabByName label tv = Some ((Some (FrameKids tv ! length xs), int (length xs), True), tv0))"
proof -
  from InitTabView_total [of tv] I obtain tb fr where K: "TvKids tv0 = Some (tb, fr)" by auto
  from W have A: "Aligned (Kids tb) (Kids fr)"
    by (simp add: WellFormed_init [OF I] WellFormed_inited [OF K])
  have T: "TabKids tv = Kids tb" and F: "FrameKids tv = Kids fr"
    by (simp_all add: TabKids_init [OF I] FrameKids_init [OF I]
        TabKids_inited [OF K] FrameKids_inited [OF K])
  let ?n = "length (Kids fr)"
  have B: "TabButtons tv = take ?n (Kids tb)"
    by (simp add: TabButtons_def T Aligned_TabButtons [OF A])
  note L = Aligned_len [OF A]
  have 1: "\<exists>tv1. AddTab widg label tv = Some (int ?n, tv1) \<and>
          TabByName label tv1 =
            Some ((Some (if Kids fr = [] then widg else widg\<lparr>Invisible := True\<rparr>), int ?n, True), tv1)"
    if N: "label \<notin> BNm ` set (take ?n (Kids tb))"
  proof (cases "Kids fr = []")
    case True
    define b where "b = (NewButton KiT_TabButton label)
                    \<lparr>Data := IntData 0, Text := label, Tooltip := label, Selected := True\<rparr>"
    define tv1 where "tv1 = tv0\<lparr>FullReRender := True, TvKids := Some
            (tb\<lparr>Kids := insertAt 0 b (Kids tb)\<rparr>, fr\<lparr>Kids := [widg], StackTop := 0\<rparr>)\<rparr>"
    have K1: "TvKids tv1 = Some (tb\<lparr>Kids := insertAt 0 b (Kids tb)\<rparr>, fr\<lparr>Kids := [widg], StackTop := 0\<rparr>)"
      by (simp add: tv1_def)
    have R: "AddTab widg label tv = Some (int ?n, tv1)"
      using AddTab_empty [OF K True, of widg label] True
      by (simp add: AddTab_init [OF I] tv1_def b_def)
    have "TabByName label tv1 = Some ((Some ([widg] ! length ([]::Button list)), int (length ([]::Button list)), True), tv1)"
      using TabByName_first [OF K1, of "[]" b "Kids tb" label]
      by (simp add: insertAt_def b_def NewButton_def)
    with R True show ?thesis by (intro exI [of _ tv1]) simp
  next
    case False
    define b where "b = (NewButton KiT_TabButton label)
                    \<lparr>Data := IntData (int ?n), Text := label, Tooltip := label\<rparr>"
    define fks where "fks = insertAt ?n (widg\<lparr>Invisible := True\<rparr>) (Kids fr)"
    define tv1 where "tv1 = tv0\<lparr>FullReRender := True, TvKids := Some
            (tb\<lparr>Kids := insertAt ?n b (Kids tb)\<rparr>, fr\<lparr>Kids := fks\<rparr>)\<rparr>"
    have K1: "TvKids tv1 = Some (tb\<lparr>Kids := insertAt ?n b (Kids tb)\<rparr>, fr\<lparr>Kids := fks\<rparr>)"
      by (simp add: tv1_def)
    have R: "AddTab widg label tv = Some (int ?n, tv1)"
      using AddTab_nonempty [OF K L False, of widg label]
      by (simp add: AddTab_init [OF I] tv1_def b_def fks_def)
    have "TabByName label tv1 =
        Some ((Some (fks ! length (take ?n (Kids tb))), int (length (take ?n (Kids tb))), True), tv1)"
      using N L TabByName_first [OF K1, of "take ?n (Kids tb)" b "drop ?n (Kids tb)" label]
      by (simp add: insertAt_def b_def NewButton_def fks_def)
    with R False L show ?thesis
      by (intro exI [of _ tv1]) (simp add: fks_def nth_insertAt_same min_def)
  qed
  have 2: "TabByName label tv = Some ((None, -1, False), tv0)"
    if "label \<notin> BNm ` set (Kids tb)"
    using that TabByName_none [OF K] by (simp add: TabByName_init [OF I])
  have 3: "TabByName label tv = Some ((Some (Kids fr ! length xs), int (length xs), True), tv0)"
    if "Kids tb = xs @ k # ys" "label \<notin> BNm ` set xs" "BNm k = label" "length xs < ?n"
    for xs k ys
    using that TabByName_first [OF K] by (simp add: TabByName_init [OF I])
  from 1 2 3 show ?thesis unfolding T F B by blast
qed

lemma AddTab_TabByName_witness:
  "WellFormed TwoTabs \<and> InitTabView TwoTabs = Some TwoTabs \<and>
   (\<exists>tv1. AddTab (NewNode2D KiT_Frame ''w'') ''Foo'' TwoTabs = Some (2, tv1) \<and>
      TabByName ''Foo'' tv1 =
        Some ((Some \<lparr>Nm = ''w'', Typ = KiT_Frame, Invisible = True\<rparr>, 2, True), tv1)) \<and>
   TabByName ''Bar'' TwoTabs = Some ((None, - 1, False), TwoTabs) \<and>
   TabByName ''b'' TwoTabs =
     Some ((Some \<lparr>Nm = ''wb'', Typ = KiT_Frame, Invisible = True\<rparr>, 1, True), TwoTabs)"
proof -
  note C = AddTab_TabByName [OF TwoTabs_WellFormed TwoTabs_init]
  have B: "TabButtons TwoTabs = TabKids TwoTabs"
    by (simp add: TabButtons_def TwoTabs_TabKids)
  have 1: "\<exists>tv1. AddTab (NewNode2D KiT_Frame ''w'') ''Foo'' TwoTabs = Some (2, tv1) \<and>
      TabByName ''Foo'' tv1 =
        Some ((Some \<lparr>Nm = ''w'', Typ = KiT_Frame, Invisible = True\<rparr>, 2, True), tv1)"
    using C [of "''Foo''" "NewNode2D KiT_Frame ''w''"]
    by (simp add: B TwoTabs_TabKids TwoTabs_FrameKids NewNode2D_def)
  have 2: "TabByName ''Bar'' TwoTabs = Some ((None, - 1, False), TwoTabs)"
    using C [of "''Bar''"] by (simp add: TwoTabs_TabKids)
  from C [of "''b''"] have
    "\<forall>xs k ys. TabKids TwoTabs = xs @ k # ys \<and> ''b'' \<notin> BNm ` set xs \<and> BNm k = ''b'' \<and>
         length xs < length (FrameKids TwoTabs) \<longrightarrow>
       TabByName ''b'' TwoTabs =
         Some ((Some (FrameKids TwoTabs ! length xs), int (length xs), True), TwoTabs)"
    by blast
  from this [rule_format, of "[TabKids TwoTabs ! 0]" "TabKids TwoTabs ! 1" "[]"]
  have 3: "TabByName ''b'' TwoTabs =
     Some ((Some \<lparr>Nm = ''wb'', Typ = KiT_Frame, Invisible = True\<rparr>, 1, True), TwoTabs)"
    by (simp add: TwoTabs_TabKids TwoTabs_FrameKids)
  from TwoTabs_WellFormed TwoTabs_init 1 2 3 show ?thesis by blast
qed

section \<open>The ancestors of a tab button\<close>

lemma ParentByType_none: "\<not> list_ex IsTabView ancs \<Longrightarrow> ParentByType_TabView ancs = None"
  by (induction ancs rule: ParentByType_TabView.induct) simp_all

lemma ParentByType_nearest:
  "\<not> list_ex IsTabView pre \<Longrightarrow> ParentByType_TabView (pre @ TabViewNode tvv # post) = Some tvv"
  by (induction pre rule: ParentByType_TabView.induct) simp_all

lemma SetNearestTabView_nearest:
  "\<not> list_ex IsTabView pre \<Longrightarrow>
   SetNearestTabView tvv' (pre @ TabViewNode tvv # post) = pre @ TabViewNode tvv' # post"
  by (induction pre rule: ParentByType_TabView.induct) simp_all

lemma ancestors_cases:
  "\<not> list_ex IsTabView ancs \<or>
   (\<exists>pre tvv post. ancs = pre @ TabViewNode tvv # post \<and> \<not> list_ex IsTabView pre)"
proof (induction ancs rule: ParentByType_TabView.induct)
  case 1
  then show ?case by simp
next
  case (2 tv as)
  have "TabViewNode tv # as = [] @ TabViewNode tv # as \<and> \<not> list_ex IsTabView []" by simp
  then show ?case by blast
next
  case (3 t as)
  then show ?case
  proof
    assume "\<not> list_ex IsTabView as"
    then show ?thesis by simp
  next
    assume "\<exists>pre tvv post. as = pre @ TabViewNode tvv # post \<and> \<not> list_ex IsTabView pre"
    then obtain pre tvv post where "as = pre @ TabViewNode tvv # post" "\<not> list_ex IsTabView pre"
      by blast
    then have "OtherNode t # as = (OtherNode t # pre) @ TabViewNode tvv # post \<and>
        \<not> list_ex IsTabView (OtherNode t # pre)" by simp
    then show ?thesis by blast
  qed
qed

section \<open>Properties of the specification\<close>

text \<open>
  C1 (index alignment). Every sequence of operations keeps the strip and the content frame
  aligned (\<open>Run_WellFormed\<close> above: one tab button per content widget, in order). The
  index tags are not kept: \<open>InsertTabOnlyAt\<close> tags the new button with its index and leaves
  the tags of the buttons it shifts as they were, while \<open>DeleteTabIndex\<close> calls
  \<open>RenumberTabs\<close>. Starting from a new tab view, inserting tab \<open>a\<close> at index 0 and then tab
  \<open>b\<close> at index 0 gives the strip \<open>[b, a]\<close> in which both buttons carry the tag 0: the
  button at position 1 has tag 0.
\<close>

theorem InsertTab_front_tags:
  "map_option (\<lambda>tv. (map BNm (TabKids tv), map Data (TabKids tv)))
     (Run [OpInsertTab (NewNode2D KiT_Frame ''wa'') ''a'' 0,
           OpInsertTab (NewNode2D KiT_Frame ''wb'') ''b'' 0] NewTabView)
   = Some ([''b'', ''a''], [IntData 0, IntData 0])"
  by code_simp

text \<open>
  C2 (visible index). \<open>DeleteTabIndex\<close> changes \<open>StackTop\<close> only when the deleted tab is
  the visible one. Starting from a new tab view, adding tabs \<open>a\<close>, \<open>b\<close>, \<open>c\<close>, selecting
  index 2 and deleting index 0 leaves two tabs with \<open>StackTop = 2\<close>, which is neither -1 nor
  an index into the content frame, while the one selected button is at position 1.
\<close>

theorem DeleteTabIndex_before_visible:
  "map_option (\<lambda>tv. (length (FrameKids tv), FrameStackTop tv, SelectedIdxs (TabKids tv)))
     (Run [OpAddTab (NewNode2D KiT_Frame ''wa'') ''a'',
           OpAddTab (NewNode2D KiT_Frame ''wb'') ''b'',
           OpAddTab (NewNode2D KiT_Frame ''wc'') ''c'',
           OpSelectTabIndex 2,
           OpDeleteTabIndex 0 True] NewTabView)
   = Some (2, 2, [1])"
  by code_simp

text \<open>
  C3 (reselection after a delete). With tabs \<open>a\<close>, \<open>b\<close> and \<open>a\<close> selected and visible at
  index 0, \<open>DeleteTabIndex(0, true)\<close> computes \<open>nxtidx = 0\<close> and calls \<open>SelectTabIndex(0)\<close>;
  \<open>StackTop\<close> is still 0, so \<open>SelectTabIndex\<close> returns at once. Tab \<open>b\<close> is then at index 0
  with \<open>StackTop = 0\<close>, and its button is not selected: no button of the strip is.
\<close>

theorem DeleteTabIndex_first_visible:
  "map_option (\<lambda>tv. (map BNm (TabKids tv), FrameStackTop tv, SelectedIdxs (TabKids tv)))
     (Run [OpAddTab (NewNode2D KiT_Frame ''wa'') ''a'',
           OpAddTab (NewNode2D KiT_Frame ''wb'') ''b''] NewTabView)
   = Some ([''a'', ''b''], 0, [0]) \<and>
   map_option (\<lambda>tv. (map BNm (TabKids tv), FrameStackTop tv, SelectedIdxs (TabKids tv)))
     (Run [OpAddTab (NewNode2D KiT_Frame ''wa'') ''a'',
           OpAddTab (NewNode2D KiT_Frame ''wb'') ''b'',
           OpDeleteTabIndex 0 True] NewTabView)
   = Some ([''b''], 0, [])"
  by code_simp

text \<open>
  C4 (selection on insert). On an empty tab view the inserted tab becomes selected and
  visible (\<open>InsertTab_selection\<close> above). On a tab view with tabs \<open>InsertTab\<close> marks the new
  widget invisible and writes neither \<open>StackTop\<close> nor any selected flag, also when the new
  tab goes at or before the visible one. With tabs \<open>a\<close>, \<open>b\<close> and \<open>a\<close> selected and visible
  (\<open>CurTab\<close> returns \<open>wa\<close> at index 0), inserting \<open>c\<close> at index 0 gives content
  \<open>[wc, wa, wb]\<close> with \<open>StackTop\<close> still 0: \<open>CurTab\<close> now returns the new widget \<open>wc\<close>,
  which was never selected, while the selected button \<open>a\<close> is at position 1.
\<close>

theorem InsertTab_before_visible:
  "map_option (\<lambda>tv. (map Nm (FrameKids tv), FrameStackTop tv, map_option fst (CurTab tv),
                       map BNm (TabKids tv), SelectedIdxs (TabKids tv)))
     (Run [OpAddTab (NewNode2D KiT_Frame ''wa'') ''a'',
           OpAddTab (NewNode2D KiT_Frame ''wb'') ''b''] NewTabView)
   = Some ([''wa'', ''wb''], 0,
           Some (Some \<lparr>Nm = ''wa'', Typ = KiT_Frame, Invisible = False\<rparr>, 0, True),
           [''a'', ''b''], [0]) \<and>
   map_option (\<lambda>tv. (map Nm (FrameKids tv), FrameStackTop tv, map_option fst (CurTab tv),
                       map BNm (TabKids tv), SelectedIdxs (TabKids tv)))
     (Run [OpAddTab (NewNode2D KiT_Frame ''wa'') ''a'',
           OpAddTab (NewNode2D KiT_Frame ''wb'') ''b'',
           OpInsertTab (NewNode2D KiT_Frame ''wc'') ''c'' 0] NewTabView)
   = Some ([''wc'', ''wa'', ''wb''], 0,
           Some (Some \<lparr>Nm = ''wc'', Typ = KiT_Frame, Invisible = True\<rparr>, 0, True),
           [''c'', ''a'', ''b''], [1])"
  by code_simp

text \<open>
  C5 (contract of \<open>SelectTabIndex\<close>). Let \<open>tv0\<close> be the tab view with its two frames made
  (\<open>tv\<close> itself unless this is its first use). With \<open>idx\<close> out of range the call returns
  not-found, logs the index and the number of tabs, and changes nothing else. With a valid
  \<open>idx\<close> equal to \<open>StackTop\<close> it returns the widget at \<open>idx\<close> and success and changes
  nothing. With a valid \<open>idx\<close> different from \<open>StackTop\<close> it returns the widget at \<open>idx\<close>
  and success, sets \<open>StackTop\<close> to \<open>idx\<close>, marks button \<open>idx\<close> selected and every other tab
  button unselected, and leaves the content widgets, the new-tab button, the signals and the
  log unchanged.
\<close>

theorem SelectTabIndex_contract:
  assumes W: "WellFormed tv" and I: "InitTabView tv = Some tv0"
  shows
    "(idx < 0 \<or> int (length (FrameKids tv)) \<le> idx \<longrightarrow>
        SelectTabIndex idx tv =
          Some ((None, False),
                tv0\<lparr>Logged := Logged tv0 @ [(idx, int (length (FrameKids tv)))]\<rparr>)) \<and>
     (0 \<le> idx \<and> idx < int (length (FrameKids tv)) \<and> FrameStackTop tv = idx \<longrightarrow>
        SelectTabIndex idx tv = Some ((Some (FrameKids tv ! nat idx), True), tv0)) \<and>
     (0 \<le> idx \<and> idx < int (length (FrameKids tv)) \<and> FrameStackTop tv \<noteq> idx \<longrightarrow>
        (\<exists>tv'. SelectTabIndex idx tv = Some ((Some (FrameKids tv ! nat idx), True), tv') \<and>
           FrameStackTop tv' = idx \<and> FrameKids tv' = FrameKids tv \<and>
           length (TabKids tv') = length (TabKids tv) \<and>
           (\<forall>j < length (TabKids tv).
              TabKids tv' ! j =
                (if int j = idx then (TabKids tv ! j)\<lparr>Selected := True\<rparr>
                 else if j < length (FrameKids tv) then (TabKids tv ! j)\<lparr>Selected := False\<rparr>
                 else TabKids tv ! j)) \<and>
           Emitted tv' = Emitted tv \<and> Logged tv' = Logged tv))"
proof -
  from InitTabView_total [of tv] I obtain tb fr where K: "TvKids tv0 = Some (tb, fr)" by auto
  from W have A: "Aligned (Kids tb) (Kids fr)"
    by (simp add: WellFormed_init [OF I] WellFormed_inited [OF K])
  have T: "TabKids tv = Kids tb" and F: "FrameKids tv = Kids fr"
    and S: "FrameStackTop tv = StackTop fr"
    by (simp_all add: TabKids_init [OF I] FrameKids_init [OF I] FrameStackTop_init [OF I]
        TabKids_inited [OF K] FrameKids_inited [OF K] FrameStackTop_inited [OF K])
  note E = SelectTabIndex_init [OF I]
  have 1: "SelectTabIndex idx tv =
      Some ((None, False), tv0\<lparr>Logged := Logged tv0 @ [(idx, int (length (FrameKids tv)))]\<rparr>)"
    if "idx < 0 \<or> int (length (FrameKids tv)) \<le> idx"
    using that SelectTabIndex_invalid [OF K, of idx] by (simp add: E F)
  have 2: "SelectTabIndex idx tv = Some ((Some (FrameKids tv ! nat idx), True), tv0)"
    if "0 \<le> idx" "idx < int (length (FrameKids tv))" "FrameStackTop tv = idx"
    using that SelectTabIndex_same [OF K A, of idx] by (simp add: E F S)
  have 3: "\<exists>tv'. SelectTabIndex idx tv = Some ((Some (FrameKids tv ! nat idx), True), tv') \<and>
           FrameStackTop tv' = idx \<and> FrameKids tv' = FrameKids tv \<and>
           length (TabKids tv') = length (TabKids tv) \<and>
           (\<forall>j < length (TabKids tv).
              TabKids tv' ! j =
                (if int j = idx then (TabKids tv ! j)\<lparr>Selected := True\<rparr>
                 else if j < length (FrameKids tv) then (TabKids tv ! j)\<lparr>Selected := False\<rparr>
                 else TabKids tv ! j)) \<and>
           Emitted tv' = Emitted tv \<and> Logged tv' = Logged tv"
    if i0: "0 \<le> idx" and i1: "idx < int (length (FrameKids tv))" and ne: "FrameStackTop tv \<noteq> idx"
  proof -
    define tv' where "tv' = tv0\<lparr>TvKids := Some (tb\<lparr>Kids := SelectedKids idx (length (Kids fr)) (Kids tb)\<rparr>,
                               fr\<lparr>StackTop := idx\<rparr>)\<rparr>"
    have K': "TvKids tv' = Some (tb\<lparr>Kids := SelectedKids idx (length (Kids fr)) (Kids tb)\<rparr>,
                               fr\<lparr>StackTop := idx\<rparr>)"
      by (simp add: tv'_def)
    have R: "SelectTabIndex idx tv = Some ((Some (FrameKids tv ! nat idx), True), tv')"
      using i0 i1 ne SelectTabIndex_other [OF K A, of idx] by (simp add: E F S tv'_def)
    have fields: "Emitted tv' = Emitted tv" "Logged tv' = Logged tv"
      using InitTabView_fields [OF I] by (simp_all add: tv'_def)
    show ?thesis
      using R fields i0
      by (intro exI [of _ tv'])
        (simp add: TabKids_inited [OF K'] FrameKids_inited [OF K'] FrameStackTop_inited [OF K']
          T F nth_SelectedKids)
  qed
  from 1 2 3 show ?thesis by blast
qed

theorem SelectTabIndex_contract_witness:
  "WellFormed TwoTabs \<and> InitTabView TwoTabs = Some TwoTabs \<and>
   SelectTabIndex 5 TwoTabs = Some ((None, False), TwoTabs\<lparr>Logged := [(5, 2)]\<rparr>) \<and>
   SelectTabIndex 0 TwoTabs =
     Some ((Some \<lparr>Nm = ''wa'', Typ = KiT_Frame, Invisible = False\<rparr>, True), TwoTabs) \<and>
   (\<exists>tv'. SelectTabIndex 1 TwoTabs =
       Some ((Some \<lparr>Nm = ''wb'', Typ = KiT_Frame, Invisible = True\<rparr>, True), tv') \<and>
     FrameStackTop tv' = 1 \<and> \<not> Selected (TabKids tv' ! 0) \<and> Selected (TabKids tv' ! 1))"
proof -
  note C = SelectTabIndex_contract [OF TwoTabs_WellFormed TwoTabs_init]
  have L: "Logged TwoTabs = []" by (simp add: TwoTabs_def)
  have 1: "SelectTabIndex 5 TwoTabs = Some ((None, False), TwoTabs\<lparr>Logged := [(5, 2)]\<rparr>)"
    using C [of 5] by (simp add: TwoTabs_FrameKids L)
  have 2: "SelectTabIndex 0 TwoTabs =
     Some ((Some \<lparr>Nm = ''wa'', Typ = KiT_Frame, Invisible = False\<rparr>, True), TwoTabs)"
    using C [of 0] by (simp add: TwoTabs_FrameKids TwoTabs_StackTop)
  have 3: "\<exists>tv'. SelectTabIndex 1 TwoTabs =
       Some ((Some \<lparr>Nm = ''wb'', Typ = KiT_Frame, Invisible = True\<rparr>, True), tv') \<and>
     FrameStackTop tv' = 1 \<and> \<not> Selected (TabKids tv' ! 0) \<and> Selected (TabKids tv' ! 1)"
    using C [of 1] by (auto simp: TwoTabs_FrameKids TwoTabs_StackTop TwoTabs_TabKids)
  from TwoTabs_WellFormed TwoTabs_init 1 2 3 show ?thesis by blast
qed

text \<open>
  C6 (signals). On a well-formed tab view \<open>SelectTabIndexAction(idx)\<close> returns, having
  emitted exactly one \<open>TabSelected\<close> signal with payload \<open>idx\<close> when \<open>idx\<close> is a valid tab
  index and no signal otherwise; \<open>DeleteTabIndexAction(idx)\<close> likewise with \<open>TabDeleted\<close>.
\<close>

theorem Action_signal_emission:
  assumes W: "WellFormed tv"
  shows
    "(\<exists>tv'. SelectTabIndexAction idx tv = Some tv' \<and>
        Emitted tv' = Emitted tv @
          (if 0 \<le> idx \<and> idx < int (length (FrameKids tv)) then [(TabSelected, idx)] else [])) \<and>
     (\<exists>tv'. DeleteTabIndexAction idx tv = Some tv' \<and>
        Emitted tv' = Emitted tv @
          (if 0 \<le> idx \<and> idx < int (length (FrameKids tv)) then [(TabDeleted, idx)] else []))"
proof -
  from W obtain tv0 tb fr where I: "InitTabView tv = Some tv0" and K: "TvKids tv0 = Some (tb, fr)"
    and A: "Aligned (Kids tb) (Kids fr)" and F: "FrameKids tv = Kids fr"
    by (rule WellFormed_obtain)
  from InitTabView_fields [OF I] have E: "Emitted tv0 = Emitted tv" by simp
  have sel: "\<exists>r tv1. SelectTabIndex idx tv = Some ((r, 0 \<le> idx \<and> idx < int (length (Kids fr))), tv1) \<and>
      Emitted tv1 = Emitted tv"
  proof -
    consider (inv) "idx < 0 \<or> int (length (Kids fr)) \<le> idx"
      | (same) "0 \<le> idx" "idx < int (length (Kids fr))" "StackTop fr = idx"
      | (other) "0 \<le> idx" "idx < int (length (Kids fr))" "StackTop fr \<noteq> idx"
      by linarith
    then show ?thesis
    proof cases
      case inv
      with SelectTabIndex_invalid [OF K inv] E show ?thesis
        by (auto simp: SelectTabIndex_init [OF I])
    next
      case same
      with SelectTabIndex_same [OF K A same] E show ?thesis
        by (simp add: SelectTabIndex_init [OF I])
    next
      case other
      with SelectTabIndex_other [OF K A other] E show ?thesis
        by (simp add: SelectTabIndex_init [OF I])
    qed
  qed
  have del: "\<exists>r tv1. DeleteTabIndex idx True tv = Some ((r, 0 \<le> idx \<and> idx < int (length (Kids fr))), tv1) \<and>
      Emitted tv1 = Emitted tv"
  proof (cases "0 \<le> idx \<and> idx < int (length (Kids fr))")
    case True
    then have i0: "0 \<le> idx" and i1: "idx < int (length (Kids fr))" by simp_all
    from DeleteTabIndex_valid [OF K A i0 i1, of True] E True show ?thesis
      by (simp add: DeleteTabIndex_init [OF I])
  next
    case False
    then have inv: "idx < 0 \<or> int (length (Kids fr)) \<le> idx" by linarith
    from DeleteTabIndex_invalid [OF K inv, of True] E False show ?thesis
      by (simp add: DeleteTabIndex_init [OF I])
  qed
  from sel obtain r tv1
    where "SelectTabIndex idx tv = Some ((r, 0 \<le> idx \<and> idx < int (length (Kids fr))), tv1)"
      and "Emitted tv1 = Emitted tv" by blast
  then have s: "\<exists>tv'. SelectTabIndexAction idx tv = Some tv' \<and>
        Emitted tv' = Emitted tv @
          (if 0 \<le> idx \<and> idx < int (length (FrameKids tv)) then [(TabSelected, idx)] else [])"
    by (simp add: SelectTabIndexAction_def Emit_def F)
  from del obtain r tv1
    where "DeleteTabIndex idx True tv = Some ((r, 0 \<le> idx \<and> idx < int (length (Kids fr))), tv1)"
      and "Emitted tv1 = Emitted tv" by blast
  then have d: "\<exists>tv'. DeleteTabIndexAction idx tv = Some tv' \<and>
        Emitted tv' = Emitted tv @
          (if 0 \<le> idx \<and> idx < int (length (FrameKids tv)) then [(TabDeleted, idx)] else [])"
    by (simp add: DeleteTabIndexAction_def Emit_def F)
  from s d show ?thesis by simp
qed

theorem Action_signal_emission_witness:
  "WellFormed TwoTabs \<and>
   (\<exists>tv'. SelectTabIndexAction 1 TwoTabs = Some tv' \<and> Emitted tv' = [(TabSelected, 1)]) \<and>
   (\<exists>tv'. SelectTabIndexAction 2 TwoTabs = Some tv' \<and> Emitted tv' = []) \<and>
   (\<exists>tv'. DeleteTabIndexAction 1 TwoTabs = Some tv' \<and> Emitted tv' = [(TabDeleted, 1)]) \<and>
   (\<exists>tv'. DeleteTabIndexAction (- 1) TwoTabs = Some tv' \<and> Emitted tv' = [])"
proof -
  note C = Action_signal_emission [OF TwoTabs_WellFormed]
  have E: "Emitted TwoTabs = []" by (simp add: TwoTabs_def)
  from C [of 1] C [of 2] C [of "- 1"] TwoTabs_WellFormed show ?thesis
    by (simp add: TwoTabs_FrameKids E)
qed

text \<open>
  C7 (adding and finding a tab). The round trip holds (\<open>AddTab_TabByName\<close> above).
  \<open>TabByName\<close> searches every child of the strip, the new-tab button included, and reads
  the content frame at the index found without a check. After adding tabs \<open>a\<close> and \<open>b\<close>,
  setting \<open>NewTabButton\<close> and calling \<open>ConfigNewTabButton\<close>, the strip is
  \<open>[a, b, new-tab]\<close> over two content widgets; no tab is named \<open>new-tab\<close>, and
  \<open>TabByName("new-tab")\<close> finds index 2 and panics at \<open>fr.KnownChild(2)\<close>.
\<close>

theorem TabByName_new_tab_button:
  "(case Run [OpAddTab (NewNode2D KiT_Frame ''wa'') ''a'',
              OpAddTab (NewNode2D KiT_Frame ''wb'') ''b'',
              OpSetNewTabButton True,
              OpConfigNewTabButton] NewTabView of
      None \<Rightarrow> None
    | Some tv \<Rightarrow>
        Some (map BNm (TabKids tv), map BNm (TabButtons tv), length (FrameKids tv),
              TabByName ''new-tab'' tv))
   = Some ([''a'', ''b'', ''new-tab''], [''a'', ''b''], 2, None)"
  by code_simp

text \<open>
  C8 (the new-tab button). On a well-formed tab view one call of \<open>ConfigNewTabButton\<close>
  returns, keeps the flag and the content widgets, and leaves the strip with one child per
  tab plus one if the flag \<open>NewTabButton\<close> is set; a second call on the resulting view changes
  nothing and returns false.
\<close>

theorem ConfigNewTabButton_idempotent:
  assumes W: "WellFormed tv"
  shows "\<exists>r tv1. ConfigNewTabButton tv = Some (r, tv1) \<and>
      NewTabButton tv1 = NewTabButton tv \<and> FrameKids tv1 = FrameKids tv \<and>
      length (TabKids tv1) = length (FrameKids tv1) + (if NewTabButton tv1 then 1 else 0) \<and>
      ConfigNewTabButton tv1 = Some (False, tv1)"
proof -
  from W obtain tv0 tb fr where I: "InitTabView tv = Some tv0" and K: "TvKids tv0 = Some (tb, fr)"
    and A: "Aligned (Kids tb) (Kids fr)" and T: "TabKids tv = Kids tb"
    and F: "FrameKids tv = Kids fr"
    by (rule WellFormed_obtain)
  from InitTabView_fields [OF I] have B: "NewTabButton tv0 = NewTabButton tv" by simp
  have C: "ConfigNewTabButton tv = ConfigNewTabButtonKids tv0"
    by (simp add: ConfigNewTabButton_init [OF I] ConfigNewTabButton_inited [OF K])
  from A have len: "length (Kids tb) = length (Kids fr) \<or> length (Kids tb) = Suc (length (Kids fr))"
    by (simp add: Aligned_def)
  consider (noop) "length (Kids tb) = length (Kids fr) + (if NewTabButton tv0 then 1 else 0)"
    | (add) "NewTabButton tv0" "length (Kids tb) = length (Kids fr)"
    | (del) "\<not> NewTabButton tv0" "length (Kids tb) = Suc (length (Kids fr))"
    using len by (cases "NewTabButton tv0") auto
  then show ?thesis
  proof cases
    case noop
    have R: "ConfigNewTabButton tv = Some (False, tv0)"
      using ConfigNewTabButtonKids_noop [OF K noop] C by simp
    have N: "ConfigNewTabButton tv0 = Some (False, tv0)"
      using ConfigNewTabButtonKids_noop [OF K noop] by (simp add: ConfigNewTabButton_inited [OF K])
    from R N noop B F show ?thesis
      by (intro exI [of _ False] exI [of _ tv0])
        (simp add: TabKids_inited [OF K] FrameKids_inited [OF K])
  next
    case add
    define ty where "ty = (if NewTabType tv0 = None then Some KiT_Frame else NewTabType tv0)"
    define tb1 where "tb1 = tb\<lparr>Kids := insertAt (length (Kids tb))
                      ((NewButton KiT_Action ''new-tab'')\<lparr>Data := IntData (-1), Icon := ''plus''\<rparr>)
                      (Kids tb)\<rparr>"
    define tv1 where "tv1 = tv0\<lparr>NewTabType := ty, TvKids := Some (tb1, fr)\<rparr>"
    from add(2) have neq: "length (Kids tb) \<noteq> Suc (length (Kids fr))" by simp
    have K1: "TvKids tv1 = Some (tb1, fr)" by (simp add: tv1_def)
    have B1: "NewTabButton tv1 = NewTabButton tv0" by (simp add: tv1_def)
    have L1: "length (Kids tb1) = Suc (length (Kids fr))" using add(2) by (simp add: tb1_def)
    have R: "ConfigNewTabButton tv = Some (True, tv1)"
      using ConfigNewTabButtonKids_add [OF K add(1) neq] C by (simp add: tv1_def tb1_def ty_def)
    have "ConfigNewTabButtonKids tv1 = Some (False, tv1)"
      using B1 L1 add(1) by (intro ConfigNewTabButtonKids_noop [OF K1]) simp
    then have N: "ConfigNewTabButton tv1 = Some (False, tv1)"
      by (simp add: ConfigNewTabButton_inited [OF K1])
    from R N add B B1 L1 F show ?thesis
      by (intro exI [of _ True] exI [of _ tv1])
        (simp add: TabKids_inited [OF K1] FrameKids_inited [OF K1])
  next
    case del
    define tb1 where "tb1 = tb\<lparr>Kids := removeAt (length (Kids tb) - 1) (Kids tb)\<rparr>"
    define tv1 where "tv1 = tv0\<lparr>TvKids := Some (tb1, fr)\<rparr>"
    from del(2) have ne: "Kids tb \<noteq> []" and neq: "length (Kids tb) \<noteq> length (Kids fr)"
      by auto
    have K1: "TvKids tv1 = Some (tb1, fr)" by (simp add: tv1_def)
    have B1: "NewTabButton tv1 = NewTabButton tv0" by (simp add: tv1_def)
    have L1: "length (Kids tb1) = length (Kids fr)" using del(2) by (simp add: tb1_def)
    have R: "ConfigNewTabButton tv = Some (True, tv1)"
      using ConfigNewTabButtonKids_remove [OF K del(1) neq ne] C by (simp add: tv1_def tb1_def)
    have "ConfigNewTabButtonKids tv1 = Some (False, tv1)"
      using B1 L1 del(1) by (intro ConfigNewTabButtonKids_noop [OF K1]) simp
    then have N: "ConfigNewTabButton tv1 = Some (False, tv1)"
      by (simp add: ConfigNewTabButton_inited [OF K1])
    from R N del B B1 L1 F show ?thesis
      by (intro exI [of _ True] exI [of _ tv1])
        (simp add: TabKids_inited [OF K1] FrameKids_inited [OF K1])
  qed
qed

theorem ConfigNewTabButton_idempotent_witness:
  "WellFormed (TwoTabs\<lparr>NewTabButton := True\<rparr>) \<and>
   (\<exists>r tv1. ConfigNewTabButton (TwoTabs\<lparr>NewTabButton := True\<rparr>) = Some (r, tv1) \<and>
      NewTabButton tv1 \<and> length (TabKids tv1) = 3 \<and>
      ConfigNewTabButton tv1 = Some (False, tv1))"
proof -
  have W: "WellFormed (TwoTabs\<lparr>NewTabButton := True\<rparr>)"
    by (simp add: WellFormed_def TabKids_def FrameKids_def TwoTabs_def Aligned_def)
  have F: "length (FrameKids (TwoTabs\<lparr>NewTabButton := True\<rparr>)) = 2"
    by (simp add: FrameKids_def TwoTabs_def)
  from ConfigNewTabButton_idempotent [OF W] F W show ?thesis
    by auto
qed

text \<open>
  C9 (the close control), as stated, fails for a tab button whose \<open>Data\<close> holds no int: the
  handler evaluates \<open>tbb.Data.(int)\<close> before it looks for the tab view, so a button made
  outside a tab view (no index tag, no tab view among its ancestors) panics on the click.
\<close>

theorem CloseClicked_no_tag_panics:
  "TabButton_TabView [OtherNode KiT_Frame] = None \<and>
   CloseClicked (NewButton KiT_TabButton ''tab'') [OtherNode KiT_Frame] = None"
  by (simp add: TabButton_TabView_def CloseClicked_def NewButton_def AsInt_def)

text \<open>
  C9, amended. For a tab button whose \<open>Data\<close> holds the int \<open>i\<close> and whose ancestors,
  nearest first, are \<open>ancs\<close>: if no ancestor is a tab view the click changes nothing and
  raises nothing; if \<open>tvv\<close> is the nearest ancestor that is a tab view (every ancestor
  before it is not one), the handler calls \<open>DeleteTabIndexAction(i)\<close> on \<open>tvv\<close> and on nothing
  else: the ancestors after the click are the same with \<open>tvv\<close> replaced by the result.
  By \<open>ancestors_cases\<close> these two cases cover every list of ancestors.
\<close>

theorem CloseClicked_nearest_ancestor:
  assumes D: "Data tbb = IntData i"
  shows "(\<not> list_ex IsTabView ancs \<longrightarrow> CloseClicked tbb ancs = Some ancs) \<and>
     (\<forall>pre tvv post. ancs = pre @ TabViewNode tvv # post \<and> \<not> list_ex IsTabView pre \<longrightarrow>
        CloseClicked tbb ancs =
          map_option (\<lambda>tvv'. pre @ TabViewNode tvv' # post) (DeleteTabIndexAction i tvv))"
proof -
  have 1: "CloseClicked tbb ancs = Some ancs" if "\<not> list_ex IsTabView ancs"
    using D ParentByType_none [OF that]
    by (simp add: CloseClicked_def AsInt_def TabButton_TabView_def)
  have 2: "CloseClicked tbb ancs =
          map_option (\<lambda>tvv'. pre @ TabViewNode tvv' # post) (DeleteTabIndexAction i tvv)"
    if "ancs = pre @ TabViewNode tvv # post" "\<not> list_ex IsTabView pre" for pre tvv post
    using D that ParentByType_nearest [OF that(2), of tvv post]
      SetNearestTabView_nearest [OF that(2), of _ tvv post]
    by (cases "DeleteTabIndexAction i tvv")
      (simp_all add: CloseClicked_def AsInt_def TabButton_TabView_def)
  from 1 2 show ?thesis by blast
qed

theorem CloseClicked_nearest_ancestor_witness:
  "Data ((NewButton KiT_TabButton ''a'')\<lparr>Data := IntData 0\<rparr>) = IntData 0 \<and>
   CloseClicked ((NewButton KiT_TabButton ''a'')\<lparr>Data := IntData 0\<rparr>)
       [OtherNode KiT_Frame, OtherNode KiT_Frame]
     = Some [OtherNode KiT_Frame, OtherNode KiT_Frame] \<and>
   CloseClicked ((NewButton KiT_TabButton ''a'')\<lparr>Data := IntData 0\<rparr>)
       [OtherNode KiT_Frame, TabViewNode TwoTabs, OtherNode KiT_Frame, TabViewNode NewTabView]
     = map_option
         (\<lambda>tvv'. [OtherNode KiT_Frame, TabViewNode tvv', OtherNode KiT_Frame,
                    TabViewNode NewTabView])
         (DeleteTabIndexAction 0 TwoTabs)"
proof -
  have D: "Data ((NewButton KiT_TabButton ''a'')\<lparr>Data := IntData 0\<rparr>) = IntData 0" by simp
  note C = CloseClicked_nearest_ancestor [OF D]
  have 1: "CloseClicked ((NewButton KiT_TabButton ''a'')\<lparr>Data := IntData 0\<rparr>)
       [OtherNode KiT_Frame, OtherNode KiT_Frame]
     = Some [OtherNode KiT_Frame, OtherNode KiT_Frame]"
    using C [of "[OtherNode KiT_Frame, OtherNode KiT_Frame]"] by simp
  from C [of "[OtherNode KiT_Frame, TabViewNode TwoTabs, OtherNode KiT_Frame, TabViewNode NewTabView]"]
  have "\<forall>pre tvv post.
      [OtherNode KiT_Frame, TabViewNode TwoTabs, OtherNode KiT_Frame, TabViewNode NewTabView]
        = pre @ TabViewNode tvv # post \<and> \<not> list_ex IsTabView pre \<longrightarrow>
      CloseClicked ((NewButton KiT_TabButton ''a'')\<lparr>Data := IntData 0\<rparr>)
        [OtherNode KiT_Frame, TabViewNode TwoTabs, OtherNode KiT_Frame, TabViewNode NewTabView]
      = map_option (\<lambda>tvv'. pre @ TabViewNode tvv' # post) (DeleteTabIndexAction 0 tvv)"
    by (rule conjunct2)
  from this [rule_format, of "[OtherNode KiT_Frame]" TwoTabs
      "[OtherNode KiT_Frame, TabViewNode NewTabView]"]
  have 2: "CloseClicked ((NewButton KiT_TabButton ''a'')\<lparr>Data := IntData 0\<rparr>)
       [OtherNode KiT_Frame, TabViewNode TwoTabs, OtherNode KiT_Frame, TabViewNode NewTabView]
     = map_option
         (\<lambda>tvv'. [OtherNode KiT_Frame, TabViewNode tvv', OtherNode KiT_Frame,
                    TabViewNode NewTabView])
         (DeleteTabIndexAction 0 TwoTabs)"
    by simp
  from D 1 2 show ?thesis by blast
qed

text \<open>
  C10 (bounds of \<open>CurTab\<close>). Starting from a new tab view, adding tabs \<open>a\<close> and \<open>b\<close>,
  selecting index 1 and deleting index 0 leaves one tab with \<open>StackTop = 1\<close>; \<open>CurTab\<close> then
  reads child 1 of a frame with one child and panics.
\<close>

theorem CurTab_out_of_range:
  "(case Run [OpAddTab (NewNode2D KiT_Frame ''wa'') ''a'',
              OpAddTab (NewNode2D KiT_Frame ''wb'') ''b'',
              OpSelectTabIndex 1,
              OpDeleteTabIndex 0 True] NewTabView of
      None \<Rightarrow> None
    | Some tv \<Rightarrow> Some (length (FrameKids tv), FrameStackTop tv, CurTab tv))
   = Some (1, 1, None)"
  by code_simp

end
